theory Spec2Isabelle
  imports Main "HOL-Library.AList" "HOL-Library.Sublist"
begin

section \<open>The LSIF backend of unicon-lsp\<close>

text \<open>
  The development embeds the class \<open>LSIFBackend\<close> in its sharded variant, whose database
  is \<open>{ documents, vertexIdToDocument }\<close>: \<open>load\<close> with its repair pass, and the three
  resolvers \<open>getHoverData\<close>, \<open>getDefinitionData\<close> and \<open>getReferencesData\<close>. Of the
  flat variant of the class, \<open>load\<close> and \<open>getDefinitionData\<close> are embedded as well,
  under the prefix \<open>flat_\<close>.

  Conventions of the embedding.
  \<^item> A parsed record is the \<open>any\<close> object that \<open>JSON.parse\<close> returns. Every field the
    code reads is an optional field of \<open>lsif_obj\<close>; \<open>None\<close> is JavaScript's
    \<open>undefined\<close>. A field that is present has the type the index format gives it
    (ids and coordinates are integers, labels and uris are strings, \<open>inVs\<close> is an
    array of ids, \<open>result.contents\<close> is an array whose \<open>value\<close>s are strings).
  \<^item> \<open>===\<close> on two optional fields is equality of options (\<open>undefined === undefined\<close>
    holds); a truthiness test on a field is written out (\<open>0\<close>, the empty string and
    \<open>undefined\<close> are falsy).
  \<^item> A \<open>Map\<close> that the code iterates is an association list in insertion order
    (\<open>AList.update\<close> keeps the place of an existing key and appends a new one, as
    \<open>Map.set\<close> does); \<open>vertexIdToDocument\<close> is only ever read with \<open>get\<close> and is
    a function.
  \<^item> An exception is a value of \<open>error\<close>. Since the code mutates the backend in place,
    a throwing \<open>load\<close> still yields the backend as it stands at the throw.
  \<^item> Reading the file, splitting it into lines, dropping blank lines and
    \<open>JSON.parse\<close> belong to the runtime: \<open>load\<close> takes the parse outcome of every
    non-blank line, in file order. \<open>decodeURIComponent\<close> is a parameter of the
    resolvers. The \<open>vscode\<close> constructors \<open>Position\<close> and \<open>Range\<close> are embedded after
    the editor's API: \<open>Position\<close> throws on a negative line or character, \<open>Range\<close>
    puts its two positions in order. \<open>Uri.parse\<close> is kept as data: a \<open>location\<close> holds
    the string handed to it. Writes to the output channel are not modelled.
\<close>

subsection \<open>Data model\<close>

datatype error = SyntaxError | TypeError | URIError | IllegalArgument

record position =
  line :: int
  character :: int

record lsif_obj =
  obj_id :: "int option"
  obj_type :: "string option"
  obj_label :: "string option"
  obj_uri :: "string option"
  outV :: "int option"
  inV :: "int option"
  inVs :: "int list option"
  property :: "string option"
  shard :: "int option"
  range_start :: "position option"
  range_end :: "position option"
  result_contents :: "string list option"

text \<open>The outcome of \<open>JSON.parse\<close> on one non-blank line: a syntax error, the value
  \<open>null\<close> (reading a property of it throws), or a value whose properties can be read
  (for a number, a string, a boolean or an array every field below is absent).\<close>

datatype parsed = Invalid | JNull | JObj lsif_obj

record document_data =
  vertices :: "lsif_obj list"
  edges :: "lsif_obj list"

type_synonym documents_map = "(string option \<times> document_data) list"

record backend =
  documents :: documents_map
  vertexIdToDocument :: "int option \<Rightarrow> string option"
  currentDocumentUri :: "string option"

record location =
  loc_uri :: "string option"
  loc_start :: position
  loc_end :: position

definition no_fields :: lsif_obj where
  "no_fields = \<lparr> obj_id = None, obj_type = None, obj_label = None, obj_uri = None,
      outV = None, inV = None, inVs = None, property = None, shard = None,
      range_start = None, range_end = None, result_contents = None \<rparr>"

definition empty_data :: document_data where
  "empty_data = \<lparr> vertices = [], edges = [] \<rparr>"

text \<open>The constructor: \<open>{ documents: new Map(), vertexIdToDocument: new Map() }\<close>,
  \<open>currentDocumentUri = null\<close>.\<close>

definition new_backend :: backend where
  "new_backend = \<lparr> documents = [], vertexIdToDocument = (\<lambda>_. None),
      currentDocumentUri = None \<rparr>"

definition truthy_str :: "string option \<Rightarrow> bool" where
  "truthy_str s = (case s of None \<Rightarrow> False | Some t \<Rightarrow> t \<noteq> [])"

definition truthy_num :: "int option \<Rightarrow> bool" where
  "truthy_num n = (case n of None \<Rightarrow> False | Some i \<Rightarrow> i \<noteq> 0)"

abbreviation unsorted :: "string option" where
  "unsorted \<equiv> Some ''unsorted''"

definition is_document_vertex :: "lsif_obj \<Rightarrow> bool" where
  "is_document_vertex obj = (obj_label obj = Some ''document'' \<and> obj_type obj = Some ''vertex'')"

definition is_contains_edge :: "lsif_obj \<Rightarrow> bool" where
  "is_contains_edge obj = (obj_label obj = Some ''contains'' \<and> obj_type obj = Some ''edge'')"

subsection \<open>Ingestion: the body of \<open>lines.forEach\<close>\<close>

text \<open>\<open>documents.get(k)!.vertices.push(obj)\<close> and its twin for edges: a missing shard
  makes the property read throw.\<close>

definition push_vertex :: "string option \<Rightarrow> lsif_obj \<Rightarrow> documents_map \<Rightarrow> documents_map option" where
  "push_vertex k obj docs =
     (case map_of docs k of None \<Rightarrow> None
      | Some d \<Rightarrow> Some (AList.update k (d\<lparr>vertices := vertices d @ [obj]\<rparr>) docs))"

definition push_edge :: "string option \<Rightarrow> lsif_obj \<Rightarrow> documents_map \<Rightarrow> documents_map option" where
  "push_edge k obj docs =
     (case map_of docs k of None \<Rightarrow> None
      | Some d \<Rightarrow> Some (AList.update k (d\<lparr>edges := edges d @ [obj]\<rparr>) docs))"

definition enter_document :: "lsif_obj \<Rightarrow> backend \<Rightarrow> backend" where
  "enter_document obj b =
     (if is_document_vertex obj then
        (if map_of (documents b) (obj_uri obj) = None then
           b\<lparr> currentDocumentUri := obj_uri obj,
              documents := AList.update (obj_uri obj) empty_data (documents b),
              vertexIdToDocument := (vertexIdToDocument b)(obj_id obj := obj_uri obj) \<rparr>
         else b\<lparr> currentDocumentUri := obj_uri obj \<rparr>)
      else b)"

definition store_record :: "lsif_obj \<Rightarrow> backend \<Rightarrow> error option \<times> backend" where
  "store_record obj b =
     (if truthy_str (currentDocumentUri b) then
        (if obj_type obj = Some ''vertex'' then
           (case push_vertex (currentDocumentUri b) obj (documents b) of
              None \<Rightarrow> (Some TypeError, b)
            | Some docs \<Rightarrow> (None, b\<lparr>documents := docs\<rparr>))
         else if obj_type obj = Some ''edge'' then
           (case push_edge (currentDocumentUri b) obj (documents b) of
              None \<Rightarrow> (Some TypeError, b)
            | Some docs \<Rightarrow> (None, b\<lparr>documents := docs\<rparr>))
         else (None, b))
      else (None, b))"

definition leave_document :: "lsif_obj \<Rightarrow> backend \<Rightarrow> backend" where
  "leave_document obj b =
     (if is_contains_edge obj then
        (if map_of (documents b) unsorted = None then
           b\<lparr> currentDocumentUri := unsorted,
              documents := AList.update unsorted empty_data (documents b) \<rparr>
         else b\<lparr> currentDocumentUri := unsorted \<rparr>)
      else b)"

definition ingest :: "lsif_obj \<Rightarrow> backend \<Rightarrow> error option \<times> backend" where
  "ingest obj b =
     (case store_record obj (enter_document obj b) of
        (Some e, b') \<Rightarrow> (Some e, b')
      | (None, b') \<Rightarrow> (None, leave_document obj b'))"

definition ingest_line :: "parsed \<Rightarrow> backend \<Rightarrow> error option \<times> backend" where
  "ingest_line l b =
     (case l of Invalid \<Rightarrow> (Some SyntaxError, b)
      | JNull \<Rightarrow> (Some TypeError, b)
      | JObj obj \<Rightarrow> ingest obj b)"

fun ingest_lines :: "parsed list \<Rightarrow> backend \<Rightarrow> error option \<times> backend" where
  "ingest_lines [] b = (None, b)"
| "ingest_lines (l # ls) b =
     (case ingest_line l b of
        (Some e, b') \<Rightarrow> (Some e, b')
      | (None, b') \<Rightarrow> ingest_lines ls b')"

subsection \<open>The repair pass\<close>

text \<open>\<open>e.id === edge.id - k\<close>: an absent \<open>edge.id\<close> gives \<open>NaN\<close>, which equals nothing.\<close>

definition id_is_minus :: "int \<Rightarrow> lsif_obj \<Rightarrow> lsif_obj \<Rightarrow> bool" where
  "id_is_minus k edge e =
     (case obj_id edge of None \<Rightarrow> False | Some i \<Rightarrow> obj_id e = Some (i - k))"

definition unsorted_edges :: "backend \<Rightarrow> lsif_obj list" where
  "unsorted_edges b = (case map_of (documents b) unsorted of None \<Rightarrow> [] | Some d \<Rightarrow> edges d)"

definition unsorted_vertices :: "backend \<Rightarrow> lsif_obj list" where
  "unsorted_vertices b = (case map_of (documents b) unsorted of None \<Rightarrow> [] | Some d \<Rightarrow> vertices d)"

definition wants_repair :: "backend \<Rightarrow> lsif_obj \<Rightarrow> bool" where
  "wants_repair b edge =
     (obj_label edge = Some ''item'' \<and> truthy_num (shard edge) \<and>
      truthy_str (vertexIdToDocument b (shard edge)))"

definition repair_edge :: "lsif_obj \<Rightarrow> backend \<Rightarrow> error option \<times> backend" where
  "repair_edge edge b =
     (if wants_repair b edge then
        (let targetDocUri = vertexIdToDocument b (shard edge) in
         case push_edge targetDocUri edge (documents b) of
           None \<Rightarrow> (Some TypeError, b)
         | Some docs1 \<Rightarrow>
            (let b1 = b\<lparr>documents := docs1\<rparr>;
                 b2 = (case find (id_is_minus 1 edge) (unsorted_edges b1) of
                         None \<Rightarrow> b1
                       | Some edgeMinus1 \<Rightarrow>
                          (case push_edge targetDocUri edgeMinus1 (documents b1) of
                             None \<Rightarrow> b1 | Some docs2 \<Rightarrow> b1\<lparr>documents := docs2\<rparr>));
                 b3 = (case find (id_is_minus 2 edge) (unsorted_vertices b2) of
                         None \<Rightarrow> b2
                       | Some vertexMinus2 \<Rightarrow>
                          (case push_vertex targetDocUri vertexMinus2 (documents b2) of
                             None \<Rightarrow> b2 | Some docs3 \<Rightarrow> b2\<lparr>documents := docs3\<rparr>))
             in (None, b3)))
      else (None, b))"

fun repair_edges :: "lsif_obj list \<Rightarrow> backend \<Rightarrow> error option \<times> backend" where
  "repair_edges [] b = (None, b)"
| "repair_edges (edge # es) b =
     (case repair_edge edge b of
        (Some e, b') \<Rightarrow> (Some e, b')
      | (None, b') \<Rightarrow> repair_edges es b')"

text \<open>
  The loop \<open>for (const edge of unsortedData.edges)\<close> reads the array while the body
  may push onto it: that happens exactly when an item edge resolves to the uri
  \<open>"unsorted"\<close> itself (a document vertex whose uri is that string). The pushed copies are
  visited in turn and each pushes itself again, so once the edges present at the start
  have been handled without a throw, the loop never ends. \<open>repair_edges\<close> runs over the
  edges present at the start; \<open>feeds_unsorted\<close> detects the other case.
\<close>

definition feeds_unsorted :: "backend \<Rightarrow> lsif_obj \<Rightarrow> bool" where
  "feeds_unsorted b edge = (wants_repair b edge \<and> vertexIdToDocument b (shard edge) = unsorted)"

datatype load_result = Returns backend | Throws error backend | Diverges

definition repair :: "backend \<Rightarrow> load_result" where
  "repair b =
     (case map_of (documents b) unsorted of
        None \<Rightarrow> Returns b
      | Some unsortedData \<Rightarrow>
         (case repair_edges (edges unsortedData) b of
            (Some e, b') \<Rightarrow> Throws e b'
          | (None, b') \<Rightarrow>
             if list_ex (feeds_unsorted b) (edges unsortedData) then Diverges
             else Returns (b'\<lparr>documents := AList.delete unsorted (documents b')\<rparr>)))"

definition load :: "parsed list \<Rightarrow> backend \<Rightarrow> load_result" where
  "load lines b =
     (case ingest_lines lines b of
        (Some e, b') \<Rightarrow> Throws e b'
      | (None, b') \<Rightarrow> repair b')"

subsection \<open>Position matching\<close>

text \<open>Every resolver starts with \<open>position.line += 1; position.character += 1\<close> on
  the object it was given.\<close>

definition to_store :: "position \<Rightarrow> position" where
  "to_store p = p\<lparr> line := line p + 1, character := character p + 1 \<rparr>"

text \<open>The test \<open>position.line >= range.start.line && position.line <= range.end.line &&
  position.character >= range.start.character && position.character <= range.end.character\<close>,
  evaluated left to right: a vertex without \<open>start\<close> throws, one without \<open>end\<close> throws
  when the first comparison holds.\<close>

definition in_range :: "position \<Rightarrow> lsif_obj \<Rightarrow> error + bool" where
  "in_range p r =
     (case range_start r of
        None \<Rightarrow> Inl TypeError
      | Some s \<Rightarrow>
         if line p \<ge> line s then
           (case range_end r of
              None \<Rightarrow> Inl TypeError
            | Some e \<Rightarrow> Inr (line p \<le> line e \<and> character p \<ge> character s \<and> character p \<le> character e))
         else Inr False)"

text \<open>\<open>new vscode.Position(line, character)\<close>: the editor's constructor throws an
  illegal-argument error when the line or the character is negative.\<close>

definition new_position :: "int \<Rightarrow> int \<Rightarrow> error + position" where
  "new_position l c =
     (if l < 0 then Inl IllegalArgument
      else if c < 0 then Inl IllegalArgument
      else Inr \<lparr> line = l, character = c \<rparr>)"

text \<open>\<open>Position.isBefore\<close>, and \<open>new vscode.Range(start, end)\<close>: when \<open>start\<close> is not
  before \<open>end\<close> the constructor exchanges the two.\<close>

definition is_before :: "position \<Rightarrow> position \<Rightarrow> bool" where
  "is_before a b =
     (if line a < line b then True
      else if line b < line a then False
      else character a < character b)"

definition new_range :: "position \<Rightarrow> position \<Rightarrow> position \<times> position" where
  "new_range start end' = (if is_before start end' then (start, end') else (end', start))"

text \<open>\<open>new vscode.Location(vscode.Uri.parse(uri), new vscode.Range(new vscode.Position(
  r.start.line - 1, r.start.character - 1), new vscode.Position(r.end.line - 1,
  r.end.character - 1)))\<close>, the arguments evaluated from left to right.\<close>

definition new_location :: "string option \<Rightarrow> lsif_obj \<Rightarrow> error + location" where
  "new_location u r =
     (case range_start r of
        None \<Rightarrow> Inl TypeError
      | Some s \<Rightarrow>
         (case new_position (line s - 1) (character s - 1) of
            Inl x \<Rightarrow> Inl x
          | Inr start \<Rightarrow>
             (case range_end r of
                None \<Rightarrow> Inl TypeError
              | Some e \<Rightarrow>
                 (case new_position (line e - 1) (character e - 1) of
                    Inl x \<Rightarrow> Inl x
                  | Inr end' \<Rightarrow>
                     Inr \<lparr> loc_uri = u, loc_start = fst (new_range start end'),
                           loc_end = snd (new_range start end') \<rparr>))))"

text \<open>A \<open>for ... of\<close> loop whose body pushes onto \<open>locations\<close>: the pushes of every
  iteration in order, or the first throw.\<close>

fun collect :: "('a \<Rightarrow> error + 'b list) \<Rightarrow> 'a list \<Rightarrow> error + 'b list" where
  "collect f [] = Inr []"
| "collect f (x # xs) =
     (case f x of
        Inl e \<Rightarrow> Inl e
      | Inr ys \<Rightarrow> (case collect f xs of Inl e \<Rightarrow> Inl e | Inr zs \<Rightarrow> Inr (ys @ zs)))"

definition has_label :: "string \<Rightarrow> lsif_obj \<Rightarrow> bool" where
  "has_label l obj = (obj_label obj = Some l)"

text \<open>\<open>arr.includes(v.id)\<close> on an array of ids: an absent id is not included.\<close>

definition includes_id :: "int list \<Rightarrow> int option \<Rightarrow> bool" where
  "includes_id xs i = (case i of None \<Rightarrow> False | Some j \<Rightarrow> j \<in> set xs)"

subsection \<open>getHoverData\<close>

fun join_lines :: "string list \<Rightarrow> string" where
  "join_lines [] = []"
| "join_lines [x] = x"
| "join_lines (x # y # ys) = x @ [CHR 0x0A] @ join_lines (y # ys)"

text \<open>\<open>hoverResult.result.contents.map(content => content.value).join('\n')\<close> on the
  outcome of \<open>vertices.find\<close>, without a guard.\<close>

definition hover_text :: "lsif_obj option \<Rightarrow> error + string" where
  "hover_text hoverResult =
     (case hoverResult of
        None \<Rightarrow> Inl TypeError
      | Some h \<Rightarrow> (case result_contents h of None \<Rightarrow> Inl TypeError | Some cs \<Rightarrow> Inr (join_lines cs)))"

text \<open>The inner loop over \<open>edge2\<close>: \<open>Inr None\<close> when it ends without a \<open>return\<close>.\<close>

fun hover_via_next :: "document_data \<Rightarrow> lsif_obj \<Rightarrow> lsif_obj list \<Rightarrow> error + string option" where
  "hover_via_next d edge [] = Inr None"
| "hover_via_next d edge (edge2 # es) =
     (if has_label ''textDocument/hover'' edge2 \<and> outV edge2 = inV edge then
        (case find (\<lambda>vertex2. obj_id vertex2 = inV edge2) (vertices d) of
           None \<Rightarrow> hover_via_next d edge es
         | Some hoverResult \<Rightarrow>
            if has_label ''hoverResult'' hoverResult then
              (case hover_text (Some hoverResult) of Inl e \<Rightarrow> Inl e | Inr t \<Rightarrow> Inr (Some t))
            else hover_via_next d edge es)
      else hover_via_next d edge es)"

fun hover_edges :: "document_data \<Rightarrow> lsif_obj \<Rightarrow> lsif_obj list \<Rightarrow> error + string option" where
  "hover_edges d rangeV [] = Inr None"
| "hover_edges d rangeV (edge # es) =
     (if has_label ''next'' edge \<and> outV edge = obj_id rangeV then
        (case hover_via_next d edge (edges d) of
           Inl e \<Rightarrow> Inl e
         | Inr (Some t) \<Rightarrow> Inr (Some t)
         | Inr None \<Rightarrow> hover_edges d rangeV es)
      else if has_label ''textDocument/hover'' edge \<and> outV edge = obj_id rangeV then
        (case hover_text (find (\<lambda>vertex3. obj_id vertex3 = inV edge) (vertices d)) of
           Inl e \<Rightarrow> Inl e
         | Inr t \<Rightarrow> Inr (Some t))
      else hover_edges d rangeV es)"

fun hover_ranges :: "document_data \<Rightarrow> position \<Rightarrow> int list \<Rightarrow> error + string option" where
  "hover_ranges d p [] = Inr None"
| "hover_ranges d p (rangeId # ids) =
     (case find (\<lambda>vertex. obj_id vertex = Some rangeId) (vertices d) of
        None \<Rightarrow> hover_ranges d p ids
      | Some rangeV \<Rightarrow>
         if \<not> has_label ''range'' rangeV then hover_ranges d p ids
         else
           (case in_range p rangeV of
              Inl e \<Rightarrow> Inl e
            | Inr False \<Rightarrow> hover_ranges d p ids
            | Inr True \<Rightarrow>
               (case hover_edges d rangeV (edges d) of
                  Inl e \<Rightarrow> Inl e
                | Inr (Some t) \<Rightarrow> Inr (Some t)
                | Inr None \<Rightarrow> hover_ranges d p ids)))"

text \<open>The part of a resolver after the uri is decoded and the position shifted; the
  iteration \<open>for (const rangeId of containsEdge.inVs)\<close> throws when \<open>inVs\<close> is absent.\<close>

definition hover_at :: "backend \<Rightarrow> string \<Rightarrow> position \<Rightarrow> error + string option" where
  "hover_at b documentUri p =
     (case map_of (documents b) (Some documentUri) of
        None \<Rightarrow> Inr None
      | Some documentData \<Rightarrow>
         (case find (has_label ''contains'') (edges documentData) of
            None \<Rightarrow> Inr None
          | Some containsEdge \<Rightarrow>
             (case inVs containsEdge of
                None \<Rightarrow> Inl TypeError
              | Some ids \<Rightarrow> hover_ranges documentData p ids)))"

text \<open>A resolver returns its result (or throws) and leaves the position object as it
  mutated it. \<open>decodeURIComponent\<close> comes first and may throw.\<close>

definition getHoverData ::
  "(string \<Rightarrow> string option) \<Rightarrow> backend \<Rightarrow> string \<Rightarrow> position \<Rightarrow> (error + string option) \<times> position" where
  "getHoverData decodeURIComponent b documentUri position =
     (case decodeURIComponent documentUri of
        None \<Rightarrow> (Inl URIError, position)
      | Some u \<Rightarrow> (hover_at b u (to_store position), to_store position))"

subsection \<open>getDefinitionData\<close>

text \<open>\<open>definitionData.vertices.find(vertex => definedItem.inVs.includes(vertex.id))\<close>:
  the callback throws on an absent \<open>inVs\<close>, but only if it is called at all.\<close>

definition find_defined_range :: "lsif_obj \<Rightarrow> lsif_obj list \<Rightarrow> error + lsif_obj option" where
  "find_defined_range definedItem vs =
     (if vs = [] then Inr None
      else (case inVs definedItem of
              None \<Rightarrow> Inl TypeError
            | Some ids \<Rightarrow> Inr (find (\<lambda>vertex. includes_id ids (obj_id vertex)) vs)))"

definition defined_item_locations ::
  "backend \<Rightarrow> lsif_obj \<Rightarrow> string option \<Rightarrow> document_data \<Rightarrow> lsif_obj \<Rightarrow> error + location list" where
  "defined_item_locations b referenceItem docUri definitionData definedItem =
     (if has_label ''item'' definedItem \<and> outV definedItem = outV referenceItem \<and>
         property definedItem = Some ''definitions'' then
        (let definitionDocUri =
               (if truthy_str (vertexIdToDocument b (shard definedItem))
                then vertexIdToDocument b (shard definedItem) else docUri)
         in case find_defined_range definedItem (vertices definitionData) of
              Inl e \<Rightarrow> Inl e
            | Inr None \<Rightarrow> Inr []
            | Inr (Some rangeDefinedItem) \<Rightarrow>
               (case new_location definitionDocUri rangeDefinedItem of
                  Inl e \<Rightarrow> Inl e
                | Inr l \<Rightarrow> Inr [l]))
      else Inr [])"

definition shard_definitions ::
  "backend \<Rightarrow> lsif_obj \<Rightarrow> string option \<times> document_data \<Rightarrow> error + location list" where
  "shard_definitions b referenceItem entry =
     (case entry of (docUri, definitionData) \<Rightarrow>
        (case find (has_label ''contains'') (edges definitionData) of
           None \<Rightarrow> Inr []
         | Some definitionContainsEdge \<Rightarrow>
            collect (defined_item_locations b referenceItem docUri definitionData)
              (edges definitionData)))"

definition reference_item_definitions ::
  "backend \<Rightarrow> lsif_obj \<Rightarrow> lsif_obj \<Rightarrow> error + location list" where
  "reference_item_definitions b rangeV referenceItem =
     (if has_label ''item'' referenceItem \<and>
         (case inVs referenceItem of None \<Rightarrow> False | Some ids \<Rightarrow> includes_id ids (obj_id rangeV)) then
        collect (shard_definitions b referenceItem) (documents b)
      else Inr [])"

definition range_definitions ::
  "backend \<Rightarrow> document_data \<Rightarrow> position \<Rightarrow> int \<Rightarrow> error + location list" where
  "range_definitions b documentData p rangeId =
     (case find (\<lambda>vertex. obj_id vertex = Some rangeId) (vertices documentData) of
        None \<Rightarrow> Inr []
      | Some rangeV \<Rightarrow>
         if \<not> has_label ''range'' rangeV then Inr []
         else
           (case in_range p rangeV of
              Inl e \<Rightarrow> Inl e
            | Inr False \<Rightarrow> Inr []
            | Inr True \<Rightarrow> collect (reference_item_definitions b rangeV) (edges documentData)))"

text \<open>\<open>locations.length === 0\<close> gives \<open>null\<close>.\<close>

definition null_if_empty :: "'a list \<Rightarrow> 'a list option" where
  "null_if_empty xs = (if xs = [] then None else Some xs)"

definition definition_at :: "backend \<Rightarrow> string \<Rightarrow> position \<Rightarrow> error + location list option" where
  "definition_at b documentUri p =
     (case map_of (documents b) (Some documentUri) of
        None \<Rightarrow> Inr None
      | Some documentData \<Rightarrow>
         (case find (has_label ''contains'') (edges documentData) of
            None \<Rightarrow> Inr None
          | Some containsEdge \<Rightarrow>
             (case inVs containsEdge of
                None \<Rightarrow> Inl TypeError
              | Some ids \<Rightarrow>
                 (case collect (range_definitions b documentData p) ids of
                    Inl e \<Rightarrow> Inl e
                  | Inr locations \<Rightarrow> Inr (null_if_empty locations)))))"

definition getDefinitionData ::
  "(string \<Rightarrow> string option) \<Rightarrow> backend \<Rightarrow> string \<Rightarrow> position \<Rightarrow>
     (error + location list option) \<times> position" where
  "getDefinitionData decodeURIComponent b documentUri position =
     (case decodeURIComponent documentUri of
        None \<Rightarrow> (Inl URIError, position)
      | Some u \<Rightarrow> (definition_at b u (to_store position), to_store position))"

subsection \<open>getReferencesData\<close>

text \<open>The range loop of the reference resolver: the first range vertex that matches
  (\<open>break\<close>), \<open>Inr None\<close> when \<open>rangeVertex\<close> stays undefined.\<close>

fun reference_range :: "document_data \<Rightarrow> position \<Rightarrow> int list \<Rightarrow> error + lsif_obj option" where
  "reference_range d p [] = Inr None"
| "reference_range d p (rangeID # ids) =
     (case find (\<lambda>vertex. obj_id vertex = Some rangeID) (vertices d) of
        None \<Rightarrow> reference_range d p ids
      | Some rangeV \<Rightarrow>
         if \<not> has_label ''range'' rangeV then reference_range d p ids
         else
           (case in_range p rangeV of
              Inl e \<Rightarrow> Inl e
            | Inr False \<Rightarrow> reference_range d p ids
            | Inr True \<Rightarrow> Inr (Some rangeV)))"

text \<open>The scan of every shard for the item edges of the reference result, in the
  order of \<open>documents.entries()\<close>.\<close>

definition is_reference_item :: "lsif_obj \<Rightarrow> lsif_obj \<Rightarrow> bool" where
  "is_reference_item referenceResult edge =
     (has_label ''item'' edge \<and> outV edge = obj_id referenceResult \<and>
      property edge = Some ''references'')"

definition reference_edges :: "backend \<Rightarrow> lsif_obj \<Rightarrow> lsif_obj list" where
  "reference_edges b referenceResult =
     concat (map (\<lambda>(uri, docData). filter (is_reference_item referenceResult) (edges docData))
       (documents b))"

definition reference_range_location ::
  "string option \<Rightarrow> document_data \<Rightarrow> int \<Rightarrow> error + location list" where
  "reference_range_location targetDocumentUri targetDocumentData rangeId =
     (case find (\<lambda>vertex. obj_id vertex = Some rangeId \<and> has_label ''range'' vertex)
             (vertices targetDocumentData) of
        None \<Rightarrow> Inr []
      | Some referenceRange \<Rightarrow>
         (case new_location targetDocumentUri referenceRange of
            Inl e \<Rightarrow> Inl e
          | Inr l \<Rightarrow> Inr [l]))"

definition item_edge_locations :: "backend \<Rightarrow> string \<Rightarrow> lsif_obj \<Rightarrow> error + location list" where
  "item_edge_locations b documentUri itemEdge =
     (let targetDocumentUri =
            (if truthy_str (vertexIdToDocument b (shard itemEdge))
             then vertexIdToDocument b (shard itemEdge) else Some documentUri)
      in case map_of (documents b) targetDocumentUri of
           None \<Rightarrow> Inr []
         | Some targetDocumentData \<Rightarrow>
            (case inVs itemEdge of
               None \<Rightarrow> Inl TypeError
             | Some ids \<Rightarrow>
                collect (reference_range_location targetDocumentUri targetDocumentData) ids))"

text \<open>The chain from the matched range to its locations.\<close>

definition references_from ::
  "backend \<Rightarrow> string \<Rightarrow> document_data \<Rightarrow> lsif_obj \<Rightarrow> error + location list option" where
  "references_from b documentUri documentData rangeVertex =
     (case find (\<lambda>edge. has_label ''next'' edge \<and> outV edge = obj_id rangeVertex)
             (edges documentData) of
        None \<Rightarrow> Inr None
      | Some resultSetEdge \<Rightarrow>
     (case find (\<lambda>vertex. obj_id vertex = inV resultSetEdge \<and> has_label ''resultSet'' vertex)
             (vertices documentData) of
        None \<Rightarrow> Inr None
      | Some resultSetVertex \<Rightarrow>
     (case find (\<lambda>edge. has_label ''textDocument/references'' edge \<and>
                     outV edge = obj_id resultSetVertex) (edges documentData) of
        None \<Rightarrow> Inr None
      | Some referenceEdge \<Rightarrow>
     (case find (\<lambda>vertex. obj_id vertex = inV referenceEdge \<and>
                     has_label ''referenceResult'' vertex) (vertices documentData) of
        None \<Rightarrow> Inr None
      | Some referenceResult \<Rightarrow>
         (let referenceEdges = reference_edges b referenceResult in
          if referenceEdges = [] then Inr None
          else
            (case collect (item_edge_locations b documentUri) referenceEdges of
               Inl e \<Rightarrow> Inl e
             | Inr locations \<Rightarrow> Inr (null_if_empty locations)))))))"

definition references_at :: "backend \<Rightarrow> string \<Rightarrow> position \<Rightarrow> error + location list option" where
  "references_at b documentUri p =
     (case map_of (documents b) (Some documentUri) of
        None \<Rightarrow> Inr None
      | Some documentData \<Rightarrow>
     (case find (has_label ''contains'') (edges documentData) of
        None \<Rightarrow> Inr None
      | Some containsEdge \<Rightarrow>
     (case inVs containsEdge of
        None \<Rightarrow> Inl TypeError
      | Some ids \<Rightarrow>
     (case reference_range documentData p ids of
        Inl e \<Rightarrow> Inl e
      | Inr None \<Rightarrow> Inr None
      | Inr (Some rangeVertex) \<Rightarrow> references_from b documentUri documentData rangeVertex))))"

definition getReferencesData ::
  "(string \<Rightarrow> string option) \<Rightarrow> backend \<Rightarrow> string \<Rightarrow> position \<Rightarrow>
     (error + location list option) \<times> position" where
  "getReferencesData decodeURIComponent b documentUri position =
     (case decodeURIComponent documentUri of
        None \<Rightarrow> (Inl URIError, position)
      | Some u \<Rightarrow> (references_at b u (to_store position), to_store position))"

subsection \<open>Reading a load result\<close>

definition thrown :: "load_result \<Rightarrow> error option" where
  "thrown r = (case r of Throws e b \<Rightarrow> Some e | _ \<Rightarrow> None)"

text \<open>The backend object after the call, whether \<open>load\<close> returned or threw.\<close>

definition backend_after :: "load_result \<Rightarrow> backend option" where
  "backend_after r = (case r of Returns b \<Rightarrow> Some b | Throws e b \<Rightarrow> Some b | Diverges \<Rightarrow> None)"

definition returned :: "load_result \<Rightarrow> backend option" where
  "returned r = (case r of Returns b \<Rightarrow> Some b | _ \<Rightarrow> None)"

text \<open>The ids of the vertices and of the edges of every shard, in order.\<close>

definition shard_ids :: "backend \<Rightarrow> (string option \<times> int option list \<times> int option list) list" where
  "shard_ids b = map (\<lambda>(k, d). (k, map obj_id (vertices d), map obj_id (edges d))) (documents b)"

definition loaded :: "parsed list \<Rightarrow> backend" where
  "loaded ls = (case backend_after (load ls new_backend) of Some b \<Rightarrow> b | None \<Rightarrow> new_backend)"

definition load_twice :: "parsed list \<Rightarrow> backend \<Rightarrow> load_result" where
  "load_twice ls b = (case load ls b of Returns b1 \<Rightarrow> load ls b1 | r \<Rightarrow> r)"

subsection \<open>Sample indexes\<close>

text \<open>Each sample is the parse of an NDJSON file, one record per line.\<close>

definition vertex :: "int \<Rightarrow> string \<Rightarrow> lsif_obj" where
  "vertex i l = no_fields\<lparr> obj_id := Some i, obj_type := Some ''vertex'', obj_label := Some l \<rparr>"

definition edge1 :: "int \<Rightarrow> string \<Rightarrow> int \<Rightarrow> int \<Rightarrow> lsif_obj" where
  "edge1 i l out tgt = no_fields\<lparr> obj_id := Some i, obj_type := Some ''edge'',
     obj_label := Some l, outV := Some out, inV := Some tgt \<rparr>"

definition edgeN :: "int \<Rightarrow> string \<Rightarrow> int \<Rightarrow> int list \<Rightarrow> lsif_obj" where
  "edgeN i l out tgts = no_fields\<lparr> obj_id := Some i, obj_type := Some ''edge'',
     obj_label := Some l, outV := Some out, inVs := Some tgts \<rparr>"

definition document_vertex :: "int \<Rightarrow> string \<Rightarrow> lsif_obj" where
  "document_vertex i u = (vertex i ''document'')\<lparr> obj_uri := Some u \<rparr>"

definition range_vertex :: "int \<Rightarrow> int \<Rightarrow> int \<Rightarrow> int \<Rightarrow> int \<Rightarrow> lsif_obj" where
  "range_vertex i sl sc el ec = (vertex i ''range'')\<lparr>
     range_start := Some \<lparr>line = sl, character = sc\<rparr>,
     range_end := Some \<lparr>line = el, character = ec\<rparr> \<rparr>"

text \<open>The end-to-end scenario: one document, one range at (2,2)-(2,6), hover text
  \<open>x\<close> behind a result set.\<close>

definition hover_index :: "parsed list" where
  "hover_index = map JObj
    [document_vertex 1 ''file:///a'',
     range_vertex 2 2 2 2 6,
     vertex 3 ''resultSet'',
     edge1 4 ''next'' 2 3,
     (vertex 5 ''hoverResult'')\<lparr> result_contents := Some [''x''] \<rparr>,
     edge1 6 ''textDocument/hover'' 3 5,
     edgeN 7 ''contains'' 1 [2]]"

text \<open>A direct hover edge whose hoverResult vertex is emitted after the document's
  contains edge, so it is not in the document's shard.\<close>

definition dangling_hover_index :: "parsed list" where
  "dangling_hover_index = map JObj
    [document_vertex 1 ''file:///a'',
     range_vertex 2 2 2 2 6,
     edge1 3 ''textDocument/hover'' 2 5,
     edgeN 4 ''contains'' 1 [2],
     (vertex 5 ''hoverResult'')\<lparr> result_contents := Some [''x''] \<rparr>]"

text \<open>A direct hover edge that points at a resultSet vertex.\<close>

definition mislabelled_hover_index :: "parsed list" where
  "mislabelled_hover_index = map JObj
    [document_vertex 1 ''file:///a'',
     range_vertex 2 2 2 2 6,
     vertex 5 ''resultSet'',
     edge1 3 ''textDocument/hover'' 2 5,
     edgeN 4 ''contains'' 1 [2]]"

text \<open>One definitions item edge with two range targets, both in the document.\<close>

definition two_definitions_index :: "parsed list" where
  "two_definitions_index = map JObj
    [document_vertex 1 ''file:///a'',
     range_vertex 2 1 1 1 4,
     range_vertex 3 5 1 5 4,
     range_vertex 4 9 1 9 4,
     vertex 5 ''resultSet'',
     (edgeN 6 ''item'' 5 [3, 4])\<lparr> property := Some ''definitions'', shard := Some 1 \<rparr>,
     (edgeN 7 ''item'' 5 [2])\<lparr> property := Some ''references'', shard := Some 1 \<rparr>,
     edgeN 8 ''contains'' 1 [2, 3, 4]]"

text \<open>Two documents; the item edges carry no \<open>shard\<close> field. The reference result 5
  has a references item edge in each shard, and a definitions item edge in the
  second.\<close>

definition two_documents_index :: "parsed list" where
  "two_documents_index = map JObj
    [document_vertex 1 ''file:///a'',
     range_vertex 2 1 1 1 4,
     vertex 3 ''resultSet'',
     edge1 4 ''next'' 2 3,
     vertex 5 ''referenceResult'',
     edge1 6 ''textDocument/references'' 3 5,
     (edgeN 7 ''item'' 5 [2])\<lparr> property := Some ''references'' \<rparr>,
     edgeN 8 ''contains'' 1 [2],
     document_vertex 9 ''file:///b'',
     range_vertex 10 3 1 3 4,
     (edgeN 11 ''item'' 5 [10])\<lparr> property := Some ''references'' \<rparr>,
     (edgeN 12 ''item'' 5 [10])\<lparr> property := Some ''definitions'' \<rparr>,
     edgeN 13 ''contains'' 9 [10]]"


text \<open>A metaData vertex before the document, and a result set with its next edge
  after the document's contains edge.\<close>

definition trailing_index :: "parsed list" where
  "trailing_index = map JObj
    [vertex 1 ''metaData'',
     document_vertex 2 ''file:///a'',
     range_vertex 3 2 2 2 6,
     edgeN 4 ''contains'' 2 [3],
     vertex 5 ''resultSet'',
     edge1 6 ''next'' 3 5]"


subsection \<open>Notions used in the statements\<close>

text \<open>Every uri the backend can push to has a shard: the cursor, when it is set, and
  every uri that \<open>vertexIdToDocument\<close> yields. A fresh backend is so, and ingestion
  keeps it so.\<close>

definition well_linked :: "backend \<Rightarrow> bool" where
  "well_linked b =
     ((truthy_str (currentDocumentUri b) \<longrightarrow> map_of (documents b) (currentDocumentUri b) \<noteq> None) \<and>
      (\<forall>i. truthy_str (vertexIdToDocument b i) \<longrightarrow>
           map_of (documents b) (vertexIdToDocument b i) \<noteq> None))"

text \<open>A shard has grown: its old vertex and edge lists are prefixes of the new ones.\<close>

definition grown :: "document_data \<Rightarrow> document_data \<Rightarrow> bool" where
  "grown d d' = (prefix (vertices d) (vertices d') \<and> prefix (edges d) (edges d'))"

text \<open>The repair pass in the words of its description. An item edge of the unassigned
  shard migrates to the document \<open>k\<close> when it carries a \<open>shard\<close> field other than 0 and
  the id-to-uri map sends that id to the non-empty uri \<open>k\<close>. With it go the first edge
  of the unassigned shard whose id is the item edge's id minus one and the first vertex
  of the unassigned shard whose id is the item edge's id minus two, when there are such;
  an item edge without an id has no such companions.\<close>

definition migrates_to :: "backend \<Rightarrow> string option \<Rightarrow> lsif_obj \<Rightarrow> bool" where
  "migrates_to b k edge =
     (obj_label edge = Some ''item'' \<and>
      (case shard edge of
         None \<Rightarrow> False
       | Some n \<Rightarrow> n \<noteq> 0 \<and>
          (case vertexIdToDocument b (Some n) of
             None \<Rightarrow> False
           | Some uri \<Rightarrow> uri \<noteq> [] \<and> k = Some uri)))"

definition first_with_id :: "int \<Rightarrow> lsif_obj list \<Rightarrow> lsif_obj list" where
  "first_with_id i rs = take 1 (filter (\<lambda>r. obj_id r = Some i) rs)"

definition companion :: "int \<Rightarrow> lsif_obj \<Rightarrow> lsif_obj list \<Rightarrow> lsif_obj list" where
  "companion k edge rs =
     (case obj_id edge of None \<Rightarrow> [] | Some i \<Rightarrow> first_with_id (i - k) rs)"

definition spec_edges_for ::
  "backend \<Rightarrow> document_data \<Rightarrow> string option \<Rightarrow> lsif_obj list \<Rightarrow> lsif_obj list" where
  "spec_edges_for b unassigned k es =
     concat (map (\<lambda>edge. if migrates_to b k edge
                          then edge # companion 1 edge (edges unassigned)
                          else []) es)"

definition spec_vertices_for ::
  "backend \<Rightarrow> document_data \<Rightarrow> string option \<Rightarrow> lsif_obj list \<Rightarrow> lsif_obj list" where
  "spec_vertices_for b unassigned k es =
     concat (map (\<lambda>edge. if migrates_to b k edge
                          then companion 2 edge (vertices unassigned)
                          else []) es)"

definition spec_repaired :: "backend \<Rightarrow> document_data \<Rightarrow> string option \<Rightarrow> document_data \<Rightarrow> document_data" where
  "spec_repaired b unassigned k d =
     d\<lparr> edges := edges d @ spec_edges_for b unassigned k (edges unassigned),
        vertices := vertices d @ spec_vertices_for b unassigned k (edges unassigned) \<rparr>"

text \<open>The outcome of \<open>find\<close> as a list of at most one element.\<close>

definition the_one :: "'a option \<Rightarrow> 'a list" where
  "the_one x = (case x of None \<Rightarrow> [] | Some y \<Rightarrow> [y])"

definition all_grown :: "documents_map \<Rightarrow> documents_map \<Rightarrow> bool" where
  "all_grown docs docs' =
     (\<forall>k d. map_of docs k = Some d \<longrightarrow> (\<exists>d'. map_of docs' k = Some d' \<and> grown d d'))"

text \<open>The backend after loading the same lines a second time.\<close>

definition reloaded :: "parsed list \<Rightarrow> backend" where
  "reloaded ls = (case backend_after (load ls (loaded ls)) of Some b \<Rightarrow> b | None \<Rightarrow> new_backend)"

text \<open>A document whose contains edge is followed by a hover result 4 with its edge 5, a
  result set 6 with its next edge 7, a reference result 11 with its edge 12, and two
  item edges: 8 with \<open>shard: 1\<close> (the document) and 13 with \<open>shard: 9\<close> (no document).
  In the unassigned shard the edge 7 and the vertex 6 are neither the first nor the last
  record, and the edge 7 does not stand next to the item edge 8.\<close>

definition repair_item :: lsif_obj where
  "repair_item = (edgeN 8 ''item'' 11 [2])\<lparr> property := Some ''references'', shard := Some 1 \<rparr>"

definition stray_item :: lsif_obj where
  "stray_item = (edgeN 13 ''item'' 11 [2])\<lparr> property := Some ''references'', shard := Some 9 \<rparr>"

definition repair_index :: "parsed list" where
  "repair_index = map JObj
    [document_vertex 1 ''file:///a'',
     range_vertex 2 2 2 2 6,
     edgeN 3 ''contains'' 1 [2],
     (vertex 4 ''hoverResult'')\<lparr> result_contents := Some [''x''] \<rparr>,
     edge1 5 ''textDocument/hover'' 2 4,
     vertex 6 ''resultSet'',
     edge1 7 ''next'' 2 6,
     vertex 11 ''referenceResult'',
     edge1 12 ''textDocument/references'' 6 11,
     repair_item,
     stray_item]"

text \<open>The same shape with ids that start at 0: the document vertex has id 0 and the item
  edge 5 carries \<open>shard: 0\<close>.\<close>

definition zero_shard_item :: lsif_obj where
  "zero_shard_item = (edgeN 5 ''item'' 3 [1])\<lparr> property := Some ''references'', shard := Some 0 \<rparr>"

definition zero_shard_index :: "parsed list" where
  "zero_shard_index = map JObj
    [document_vertex 0 ''file:///a'',
     range_vertex 1 2 2 2 6,
     edgeN 2 ''contains'' 0 [1],
     vertex 3 ''resultSet'',
     edge1 4 ''next'' 1 3,
     zero_shard_item]"

text \<open>A document whose uri is the string \<open>unsorted\<close>, with an item edge bound for it.\<close>

definition unsorted_uri_index :: "parsed list" where
  "unsorted_uri_index = map JObj
    [document_vertex 1 ''unsorted'',
     range_vertex 2 2 2 2 6,
     edgeN 3 ''contains'' 1 [2],
     (edgeN 4 ''item'' 9 [2])\<lparr> property := Some ''references'', shard := Some 1 \<rparr>]"

subsection \<open>The flat variant of \<open>getDefinitionData\<close>\<close>

text \<open>
  The repository holds a second copy of the class (\<open>src/lsifBackend.ts\<close>) whose database
  is two maps from id to record, \<open>vertices\<close> and \<open>edges\<close>, without shards. Its \<open>load\<close>
  and its definition resolver are embedded here for comparison. The resolver keeps the
  variables \<open>documentVertex\<close> and \<open>containsEdge\<close> across iterations: a defining document
  without a contains edge leaves the previous \<open>containsEdge\<close> in place, so the edge is
  threaded through the loops.
\<close>

record flat_database =
  flat_vertices :: "(int option \<times> lsif_obj) list"
  flat_edges :: "(int option \<times> lsif_obj) list"

definition flat_new :: flat_database where
  "flat_new = \<lparr> flat_vertices = [], flat_edges = [] \<rparr>"

definition flat_ingest_line :: "parsed \<Rightarrow> flat_database \<Rightarrow> error option \<times> flat_database" where
  "flat_ingest_line l db =
     (case l of Invalid \<Rightarrow> (Some SyntaxError, db)
      | JNull \<Rightarrow> (Some TypeError, db)
      | JObj obj \<Rightarrow>
         if obj_type obj = Some ''vertex'' then
           (None, db\<lparr>flat_vertices := AList.update (obj_id obj) obj (flat_vertices db)\<rparr>)
         else if obj_type obj = Some ''edge'' then
           (None, db\<lparr>flat_edges := AList.update (obj_id obj) obj (flat_edges db)\<rparr>)
         else (None, db))"

fun flat_load :: "parsed list \<Rightarrow> flat_database \<Rightarrow> error option \<times> flat_database" where
  "flat_load [] db = (None, db)"
| "flat_load (l # ls) db =
     (case flat_ingest_line l db of
        (Some e, db') \<Rightarrow> (Some e, db')
      | (None, db') \<Rightarrow> flat_load ls db')"

text \<open>A \<open>for ... of\<close> loop that pushes onto \<open>locations\<close> and may reassign a variable
  \<open>s\<close> that outlives the iteration.\<close>

fun collect_with :: "('s \<Rightarrow> 'a \<Rightarrow> error + 's \<times> 'b list) \<Rightarrow> 's \<Rightarrow> 'a list \<Rightarrow> error + 's \<times> 'b list" where
  "collect_with f s [] = Inr (s, [])"
| "collect_with f s (x # xs) =
     (case f s x of
        Inl e \<Rightarrow> Inl e
      | Inr (s', ys) \<Rightarrow>
         (case collect_with f s' xs of Inl e \<Rightarrow> Inl e | Inr (s'', zs) \<Rightarrow> Inr (s'', ys @ zs)))"

definition flat_range_location ::
  "flat_database \<Rightarrow> lsif_obj \<Rightarrow> lsif_obj \<Rightarrow> int \<Rightarrow> error + location list" where
  "flat_range_location db documentVertex definedItem rangeDefinedItemID =
     (case inVs definedItem of
        None \<Rightarrow> Inl TypeError
      | Some targets \<Rightarrow>
         if rangeDefinedItemID \<in> set targets then
           (case map_of (flat_vertices db) (Some rangeDefinedItemID) of
              None \<Rightarrow> Inl TypeError
            | Some rangeDefinedItem \<Rightarrow>
               (case new_location (obj_uri documentVertex) rangeDefinedItem of
                  Inl e \<Rightarrow> Inl e
                | Inr l \<Rightarrow> Inr [l]))
         else Inr [])"

text \<open>The body for one \<open>definedItem\<close>. The search for the contains edge of the defining
  document reads \<open>documentVertex.id\<close> at the first contains edge it meets, and there is
  one, so an undefined \<open>documentVertex\<close> throws.\<close>

definition flat_defined_item ::
  "flat_database \<Rightarrow> lsif_obj \<Rightarrow> lsif_obj \<Rightarrow> lsif_obj \<Rightarrow> error + lsif_obj \<times> location list" where
  "flat_defined_item db referenceItem containsEdge definedItem =
     (if has_label ''item'' definedItem \<and> outV definedItem = outV referenceItem \<and>
         property definedItem = Some ''definitions'' then
        (case map_of (flat_vertices db) (shard definedItem) of
           None \<Rightarrow> Inl TypeError
         | Some documentVertex \<Rightarrow>
            (let containsEdge' =
                   (case find (\<lambda>edge. has_label ''contains'' edge \<and> outV edge = obj_id documentVertex)
                           (map snd (flat_edges db)) of
                      None \<Rightarrow> containsEdge | Some edge \<Rightarrow> edge)
             in case inVs containsEdge' of
                  None \<Rightarrow> Inl TypeError
                | Some ids \<Rightarrow>
                   (case collect (flat_range_location db documentVertex definedItem) ids of
                      Inl e \<Rightarrow> Inl e
                    | Inr ls \<Rightarrow> Inr (containsEdge', ls))))
      else Inr (containsEdge, []))"

definition flat_reference_item ::
  "flat_database \<Rightarrow> lsif_obj \<Rightarrow> lsif_obj \<Rightarrow> lsif_obj \<Rightarrow> error + lsif_obj \<times> location list" where
  "flat_reference_item db rangeV containsEdge referenceItem =
     (if has_label ''item'' referenceItem \<and>
         (case inVs referenceItem of None \<Rightarrow> False | Some ids \<Rightarrow> includes_id ids (obj_id rangeV)) then
        collect_with (flat_defined_item db referenceItem) containsEdge (map snd (flat_edges db))
      else Inr (containsEdge, []))"

text \<open>The flat variant reads \<open>range.start\<close> on the outcome of \<open>vertices.get\<close> without a
  guard.\<close>

definition flat_range ::
  "flat_database \<Rightarrow> position \<Rightarrow> lsif_obj \<Rightarrow> int \<Rightarrow> error + lsif_obj \<times> location list" where
  "flat_range db p containsEdge rangeID =
     (case map_of (flat_vertices db) (Some rangeID) of
        None \<Rightarrow> Inl TypeError
      | Some rangeV \<Rightarrow>
         (case in_range p rangeV of
            Inl e \<Rightarrow> Inl e
          | Inr False \<Rightarrow> Inr (containsEdge, [])
          | Inr True \<Rightarrow>
             collect_with (flat_reference_item db rangeV) containsEdge (map snd (flat_edges db))))"

definition flat_definition_at ::
  "flat_database \<Rightarrow> string \<Rightarrow> position \<Rightarrow> error + location list option" where
  "flat_definition_at db documentUri p =
     (case find (\<lambda>vertex. has_label ''document'' vertex \<and> obj_uri vertex = Some documentUri)
             (map snd (flat_vertices db)) of
        None \<Rightarrow> Inr None
      | Some documentVertex \<Rightarrow>
         (case find (\<lambda>edge. has_label ''contains'' edge \<and> outV edge = obj_id documentVertex)
                 (map snd (flat_edges db)) of
            None \<Rightarrow> Inr None
          | Some containsEdge \<Rightarrow>
             (case inVs containsEdge of
                None \<Rightarrow> Inl TypeError
              | Some ids \<Rightarrow>
                 (case collect_with (flat_range db p) containsEdge ids of
                    Inl e \<Rightarrow> Inl e
                  | Inr (c, locations) \<Rightarrow> Inr (null_if_empty locations)))))"

definition flat_getDefinitionData ::
  "(string \<Rightarrow> string option) \<Rightarrow> flat_database \<Rightarrow> string \<Rightarrow> position \<Rightarrow>
     (error + location list option) \<times> position" where
  "flat_getDefinitionData decodeURIComponent db documentUri position =
     (case decodeURIComponent documentUri of
        None \<Rightarrow> (Inl URIError, position)
      | Some u \<Rightarrow> (flat_definition_at db u (to_store position), to_store position))"

subsection \<open>Matching, in the words of its description\<close>









section \<open>Properties\<close>

lemmas sample_defs = vertex_def edge1_def edgeN_def document_vertex_def range_vertex_def
  no_fields_def

lemmas load_defs = load_def repair_def ingest_line_def ingest_def enter_document_def
  store_record_def leave_document_def push_vertex_def push_edge_def is_document_vertex_def
  is_contains_edge_def truthy_str_def truthy_num_def empty_data_def new_backend_def
  repair_edge_def wants_repair_def feeds_unsorted_def unsorted_edges_def
  unsorted_vertices_def id_is_minus_def thrown_def backend_after_def loaded_def load_twice_def
  returned_def shard_ids_def

lemmas flat_defs = flat_new_def flat_ingest_line_def flat_range_location_def
  flat_defined_item_def flat_reference_item_def flat_range_def flat_definition_at_def
  flat_getDefinitionData_def

lemmas query_defs = to_store_def in_range_def new_position_def is_before_def new_range_def
  new_location_def has_label_def references_from_def
  includes_id_def hover_text_def hover_at_def getHoverData_def find_defined_range_def
  defined_item_locations_def shard_definitions_def reference_item_definitions_def
  range_definitions_def null_if_empty_def definition_at_def getDefinitionData_def
  is_reference_item_def reference_edges_def reference_range_location_def
  item_edge_locations_def references_at_def getReferencesData_def

subsection \<open>Coordinates\<close>


lemma sum_case_id: "(case x of Inl e \<Rightarrow> Inl e | Inr y \<Rightarrow> Inr y) = x"
  by (cases x) simp_all


















subsection \<open>Resolvers on concrete indexes\<close>

text \<open>
  Claim C3 (lookup misses never escape as exceptions; a direct hover edge whose target
  is missing or is no hoverResult gives none). Evaluated on two indexes that \<open>load\<close>
  accepts: in the first the hoverResult vertex follows the document's contains edge and
  so is not in the document's shard, in the second the direct hover edge points at a
  resultSet vertex. In both, hovering inside the range throws a \<open>TypeError\<close>: the branch
  for a direct \<open>textDocument/hover\<close> edge reads \<open>hoverResult.result\<close> without the guard
  that the branch through a \<open>next\<close> edge has.
\<close>

theorem hover_dangling_target_throws:
  "thrown (load dangling_hover_index new_backend) = None \<and>
   fst (getHoverData Some (loaded dangling_hover_index) ''file:///a'' \<lparr>line = 1, character = 3\<rparr>)
     = Inl TypeError \<and>
   thrown (load mislabelled_hover_index new_backend) = None \<and>
   fst (getHoverData Some (loaded mislabelled_hover_index) ''file:///a'' \<lparr>line = 1, character = 3\<rparr>)
     = Inl TypeError"
  by (simp add: dangling_hover_index_def mislabelled_hover_index_def sample_defs load_defs query_defs)

text \<open>
  Claim C6 (one location per target of a matched definitions item edge). Evaluated on an
  index whose definitions item edge has the two targets 3 and 4, both range vertices of
  the document and both listed by its contains edge: the sharded resolver returns the
  single location of range 3, the first vertex of the shard whose id is among the
  targets, and nothing for range 4. The flat variant of the same method, which walks the
  targets of the defining document's contains edge, returns both locations on the same
  file.
\<close>

theorem definitions_first_target_only:
  "fst (getDefinitionData Some (loaded two_definitions_index) ''file:///a'' \<lparr>line = 0, character = 0\<rparr>)
     = Inr (Some [\<lparr>loc_uri = Some ''file:///a'', loc_start = \<lparr>line = 4, character = 0\<rparr>,
                   loc_end = \<lparr>line = 4, character = 3\<rparr>\<rparr>]) \<and>
   fst (flat_load two_definitions_index flat_new) = None \<and>
   fst (flat_getDefinitionData Some (snd (flat_load two_definitions_index flat_new)) ''file:///a''
          \<lparr>line = 0, character = 0\<rparr>)
     = Inr (Some [\<lparr>loc_uri = Some ''file:///a'', loc_start = \<lparr>line = 4, character = 0\<rparr>,
                   loc_end = \<lparr>line = 4, character = 3\<rparr>\<rparr>,
                  \<lparr>loc_uri = Some ''file:///a'', loc_start = \<lparr>line = 8, character = 0\<rparr>,
                   loc_end = \<lparr>line = 8, character = 3\<rparr>\<rparr>])"
  by (simp add: two_definitions_index_def sample_defs load_defs query_defs flat_defs)

text \<open>
  Claim C7 (the reference resolver falls back to the shard in which the item edge was
  found). Evaluated on an index of two documents whose item edges have no \<open>shard\<close> field.
  The references item edge 11 lies in the shard of \<open>file:///b\<close> and targets range 10 there;
  queried from \<open>file:///a\<close>, the reference resolver looks range 10 up in the shard of the
  queried document and returns only the location in \<open>file:///a\<close>. On the same index the
  definition resolver, whose fallback is the scanned shard, does return the location in
  \<open>file:///b\<close>.
\<close>

theorem references_fallback_is_query_document:
  "fst (getReferencesData Some (loaded two_documents_index) ''file:///a'' \<lparr>line = 0, character = 0\<rparr>)
     = Inr (Some [\<lparr>loc_uri = Some ''file:///a'', loc_start = \<lparr>line = 0, character = 0\<rparr>,
                   loc_end = \<lparr>line = 0, character = 3\<rparr>\<rparr>]) \<and>
   fst (getDefinitionData Some (loaded two_documents_index) ''file:///a'' \<lparr>line = 0, character = 0\<rparr>)
     = Inr (Some [\<lparr>loc_uri = Some ''file:///b'', loc_start = \<lparr>line = 2, character = 0\<rparr>,
                   loc_end = \<lparr>line = 2, character = 3\<rparr>\<rparr>])"
  by (simp add: two_documents_index_def sample_defs load_defs query_defs)

subsection \<open>A load that fails\<close>









subsection \<open>The position argument\<close>

text \<open>
  Claim C10, as stated (a query leaves its arguments unchanged, so calling it twice gives
  the same result), fails for the position object: hovering at (1,3) in the sample index
  returns \<open>x\<close> and leaves the object at (2,4); the second call on that object returns
  none and leaves it at (3,5).
\<close>

theorem query_repeat_counterexample:
  "getHoverData Some (loaded hover_index) ''file:///a'' \<lparr>line = 1, character = 3\<rparr>
     = (Inr (Some ''x''), \<lparr>line = 2, character = 4\<rparr>) \<and>
   getHoverData Some (loaded hover_index) ''file:///a'' \<lparr>line = 2, character = 4\<rparr>
     = (Inr None, \<lparr>line = 3, character = 5\<rparr>)"
  by (simp add: hover_index_def sample_defs load_defs query_defs)

text \<open>
  Claim C10, amended. A query reads the store and does not change it (a resolver is a
  function of the backend and returns no backend), and it is a function of the uri and of
  the value of the position, so equal values give equal results. It does change its
  position argument: unless decoding the uri throws, each of the three resolvers leaves
  the position object with line and character one higher than it received them.
\<close>

theorem queries_shift_position:
  "snd (getHoverData dec b u p) =
     (if dec u = None then p else \<lparr>line = line p + 1, character = character p + 1\<rparr>) \<and>
   snd (getDefinitionData dec b u p) =
     (if dec u = None then p else \<lparr>line = line p + 1, character = character p + 1\<rparr>) \<and>
   snd (getReferencesData dec b u p) =
     (if dec u = None then p else \<lparr>line = line p + 1, character = character p + 1\<rparr>)"
  by (cases p) (auto simp: getHoverData_def getDefinitionData_def getReferencesData_def to_store_def
      split: option.splits)

theorem queries_shift_position_witness:
  "snd (getHoverData Some (loaded hover_index) ''file:///a'' \<lparr>line = 1, character = 3\<rparr>)
     = \<lparr>line = 2, character = 4\<rparr> \<and>
   snd (getDefinitionData Some (loaded hover_index) ''file:///a'' \<lparr>line = 1, character = 3\<rparr>)
     = \<lparr>line = 2, character = 4\<rparr> \<and>
   snd (getReferencesData Some (loaded hover_index) ''file:///a'' \<lparr>line = 1, character = 3\<rparr>)
     = \<lparr>line = 2, character = 4\<rparr> \<and>
   snd (getHoverData (\<lambda>_. None) (loaded hover_index) ''%'' \<lparr>line = 1, character = 3\<rparr>)
     = \<lparr>line = 1, character = 3\<rparr>"
  using queries_shift_position[of Some "loaded hover_index" "''file:///a''" "\<lparr>line = 1, character = 3\<rparr>"]
    queries_shift_position[of "\<lambda>_. None" "loaded hover_index" "''%''" "\<lparr>line = 1, character = 3\<rparr>"]
  by simp

subsection \<open>Ingestion of parsed objects never throws\<close>

lemma enter_document_well_linked:
  "well_linked b \<Longrightarrow> well_linked (enter_document obj b)"
  by (auto simp: well_linked_def enter_document_def update_conv')

lemma store_record_well_linked:
  assumes "well_linked b"
  shows "\<exists>b'. store_record obj b = (None, b') \<and> well_linked b'"
proof -
  from assms have c: "truthy_str (currentDocumentUri b) \<longrightarrow>
      (\<exists>d. map_of (documents b) (currentDocumentUri b) = Some d)"
    by (auto simp: well_linked_def)
  show ?thesis
  proof (cases "truthy_str (currentDocumentUri b)")
    case False
    with assms show ?thesis by (simp add: store_record_def)
  next
    case True
    with c obtain d where d: "map_of (documents b) (currentDocumentUri b) = Some d" by blast
    with True assms show ?thesis
      by (auto simp: store_record_def push_vertex_def push_edge_def well_linked_def update_conv')
  qed
qed

lemma leave_document_well_linked:
  "well_linked b \<Longrightarrow> well_linked (leave_document obj b)"
  by (auto simp: well_linked_def leave_document_def update_conv')

lemma ingest_well_linked:
  assumes "well_linked b"
  shows "\<exists>b'. ingest obj b = (None, b') \<and> well_linked b'"
proof -
  from store_record_well_linked[OF enter_document_well_linked[OF assms], of obj obj]
  obtain b1 where "store_record obj (enter_document obj b) = (None, b1)" "well_linked b1"
    by blast
  then show ?thesis
    by (simp add: ingest_def leave_document_well_linked)
qed






lemma well_linked_new_backend: "well_linked new_backend"
  by (simp add: well_linked_def new_backend_def truthy_str_def)



lemma ingest_plain:
  assumes "\<not> is_document_vertex obj" and "\<not> is_contains_edge obj"
    and "truthy_str (currentDocumentUri b)"
    and "map_of (documents b) (currentDocumentUri b) = Some d"
  shows "ingest obj b = (None, b\<lparr>documents := AList.update (currentDocumentUri b)
           (d\<lparr>vertices := vertices d @ (if obj_type obj = Some ''vertex'' then [obj] else []),
              edges := edges d @ (if obj_type obj = Some ''edge'' then [obj] else [])\<rparr>)
           (documents b)\<rparr>)"
  using assms
  by (auto simp: ingest_def enter_document_def store_record_def leave_document_def
      push_vertex_def push_edge_def update_triv)

subsection \<open>Loading again\<close>

lemma grown_refl: "grown d d"
  by (simp add: grown_def)

lemma grown_trans: "grown d d' \<Longrightarrow> grown d' d'' \<Longrightarrow> grown d d''"
  by (auto simp: grown_def)

lemma all_grown_refl: "all_grown docs docs"
  by (auto simp: all_grown_def grown_refl)

lemma all_grown_trans: "all_grown a b \<Longrightarrow> all_grown b c \<Longrightarrow> all_grown a c"
  unfolding all_grown_def by (meson grown_trans)

lemma all_grown_update:
  "map_of docs k = Some d \<Longrightarrow> grown d d' \<Longrightarrow> all_grown docs (AList.update k d' docs)"
  by (auto simp: all_grown_def update_conv' grown_refl)

lemma all_grown_insert:
  "map_of docs k = None \<Longrightarrow> all_grown docs (AList.update k d' docs)"
  by (auto simp: all_grown_def update_conv' grown_refl)

lemma push_vertex_grown: "push_vertex k obj docs = Some docs' \<Longrightarrow> all_grown docs docs'"
  by (auto simp: push_vertex_def grown_def split: option.splits intro!: all_grown_update)

lemma push_edge_grown: "push_edge k obj docs = Some docs' \<Longrightarrow> all_grown docs docs'"
  by (auto simp: push_edge_def grown_def split: option.splits intro!: all_grown_update)

lemma enter_document_grown: "all_grown (documents b) (documents (enter_document obj b))"
  by (auto simp: enter_document_def all_grown_refl all_grown_insert)

lemma store_record_grown: "all_grown (documents b) (documents (snd (store_record obj b)))"
  by (auto simp: store_record_def all_grown_refl push_vertex_grown push_edge_grown
      split: option.splits)

lemma leave_document_grown: "all_grown (documents b) (documents (leave_document obj b))"
  by (auto simp: leave_document_def all_grown_refl all_grown_insert)

lemma ingest_grown: "all_grown (documents b) (documents (snd (ingest obj b)))"
proof -
  let ?b1 = "enter_document obj b"
  let ?b2 = "snd (store_record obj ?b1)"
  have "all_grown (documents b) (documents ?b2)"
    using enter_document_grown store_record_grown by (rule all_grown_trans)
  moreover have "all_grown (documents ?b2) (documents (leave_document obj ?b2))"
    by (rule leave_document_grown)
  ultimately have "all_grown (documents b) (documents (leave_document obj ?b2))"
    by (rule all_grown_trans)
  with \<open>all_grown (documents b) (documents ?b2)\<close> show ?thesis
    by (auto simp: ingest_def split: prod.splits option.splits)
qed

lemma ingest_line_grown: "all_grown (documents b) (documents (snd (ingest_line l b)))"
  by (cases l) (simp_all add: ingest_line_def all_grown_refl ingest_grown)

lemma ingest_lines_grown: "all_grown (documents b) (documents (snd (ingest_lines ls b)))"
proof (induction ls arbitrary: b)
  case Nil
  then show ?case by (simp add: all_grown_refl)
next
  case (Cons l ls)
  show ?case
  proof (cases "ingest_line l b")
    case (Pair r b1)
    with ingest_line_grown[of b l] have g: "all_grown (documents b) (documents b1)" by simp
    show ?thesis
    proof (cases r)
      case None
      with Pair all_grown_trans[OF g Cons.IH[of b1]] show ?thesis by simp
    next
      case (Some e)
      with Pair g show ?thesis by simp
    qed
  qed
qed

lemma repair_edge_grown: "all_grown (documents b) (documents (snd (repair_edge edge b)))"
proof (cases "wants_repair b edge")
  case False
  then show ?thesis by (simp add: repair_edge_def all_grown_refl)
next
  case True
  let ?t = "vertexIdToDocument b (shard edge)"
  show ?thesis
  proof (cases "push_edge ?t edge (documents b)")
    case None
    with True show ?thesis by (simp add: repair_edge_def all_grown_refl)
  next
    case (Some docs1)
    let ?b1 = "b\<lparr>documents := docs1\<rparr>"
    let ?b2 = "case find (id_is_minus 1 edge) (unsorted_edges ?b1) of None \<Rightarrow> ?b1
       | Some edgeMinus1 \<Rightarrow> (case push_edge ?t edgeMinus1 (documents ?b1) of
            None \<Rightarrow> ?b1 | Some docs2 \<Rightarrow> ?b1\<lparr>documents := docs2\<rparr>)"
    let ?b3 = "case find (id_is_minus 2 edge) (unsorted_vertices ?b2) of None \<Rightarrow> ?b2
       | Some vertexMinus2 \<Rightarrow> (case push_vertex ?t vertexMinus2 (documents ?b2) of
            None \<Rightarrow> ?b2 | Some docs3 \<Rightarrow> ?b2\<lparr>documents := docs3\<rparr>)"
    have 1: "all_grown (documents b) (documents ?b1)"
      using Some by (simp add: push_edge_grown)
    have 2: "all_grown (documents ?b1) (documents ?b2)"
      by (auto simp: all_grown_refl push_edge_grown split: option.splits)
    have 3: "all_grown (documents ?b2) (documents ?b3)"
      by (auto simp: all_grown_refl push_vertex_grown split: option.splits)
    have "repair_edge edge b = (None, ?b3)"
      using True Some by (simp add: repair_edge_def Let_def)
    with all_grown_trans[OF all_grown_trans[OF 1 2] 3] show ?thesis by simp
  qed
qed

lemma repair_edges_grown: "all_grown (documents b) (documents (snd (repair_edges es b)))"
proof (induction es arbitrary: b)
  case Nil
  then show ?case by (simp add: all_grown_refl)
next
  case (Cons e es)
  show ?case
  proof (cases "repair_edge e b")
    case (Pair r b1)
    with repair_edge_grown[of b e] have g: "all_grown (documents b) (documents b1)" by simp
    show ?thesis
    proof (cases r)
      case None
      with Pair all_grown_trans[OF g Cons.IH[of b1]] show ?thesis by simp
    next
      case (Some x)
      with Pair g show ?thesis by simp
    qed
  qed
qed

lemma repair_returns:
  assumes "repair b = Returns b'"
  shows "map_of (documents b') unsorted = None \<and>
         (\<forall>k d. k \<noteq> unsorted \<longrightarrow> map_of (documents b) k = Some d \<longrightarrow>
            (\<exists>d'. map_of (documents b') k = Some d' \<and> grown d d'))"
proof (cases "map_of (documents b) unsorted")
  case None
  with assms have "b' = b" by (simp add: repair_def)
  with None show ?thesis by (auto simp: grown_refl)
next
  case (Some u)
  obtain r b2 where r: "repair_edges (edges u) b = (r, b2)" by (cases "repair_edges (edges u) b")
  with assms Some have b': "b' = b2\<lparr>documents := AList.delete unsorted (documents b2)\<rparr>"
    by (auto simp: repair_def split: option.splits if_splits)
  from repair_edges_grown[of b "edges u"] r have "all_grown (documents b) (documents b2)" by simp
  with b' show ?thesis
    by (auto simp: all_grown_def delete_conv')
qed

lemma load_returns:
  assumes "load ls b = Returns b'"
  shows "map_of (documents b') unsorted = None \<and>
         (\<forall>k d. k \<noteq> unsorted \<longrightarrow> map_of (documents b) k = Some d \<longrightarrow>
            (\<exists>d'. map_of (documents b') k = Some d' \<and> grown d d'))"
proof -
  obtain r b1 where i: "ingest_lines ls b = (r, b1)" by (cases "ingest_lines ls b")
  with assms have rep: "repair b1 = Returns b'"
    by (auto simp: load_def split: option.splits)
  from ingest_lines_grown[of b ls] i have g: "all_grown (documents b) (documents b1)" by simp
  from repair_returns[OF rep] g show ?thesis
    unfolding all_grown_def by (meson grown_trans)
qed


lemma grown_length: "grown d d' \<Longrightarrow> length (vertices d) \<le> length (vertices d')"
  by (simp add: grown_def prefix_length_le)

lemma ingest_document_vertex:
  assumes "is_document_vertex obj" and "truthy_str (obj_uri obj)"
  shows "fst (ingest obj b) = None \<and>
         map_of (documents (snd (ingest obj b))) (obj_uri obj) =
           Some ((case map_of (documents b) (obj_uri obj) of None \<Rightarrow> empty_data | Some d \<Rightarrow> d)
                   \<lparr>vertices := vertices (case map_of (documents b) (obj_uri obj) of
                        None \<Rightarrow> empty_data | Some d \<Rightarrow> d) @ [obj]\<rparr>)"
  using assms
  by (auto simp: ingest_def enter_document_def store_record_def leave_document_def
      push_vertex_def is_document_vertex_def is_contains_edge_def update_conv'
      split: option.splits)

lemma ingest_lines_document_grows:
  assumes "ingest_lines ls b = (None, b')" and "JObj obj \<in> set ls"
    and "is_document_vertex obj" and "truthy_str (obj_uri obj)"
  shows "\<exists>d'. map_of (documents b') (obj_uri obj) = Some d' \<and>
           (\<forall>d. map_of (documents b) (obj_uri obj) = Some d \<longrightarrow>
                grown d d' \<and> length (vertices d) < length (vertices d'))"
  using assms(1,2)
proof (induction ls arbitrary: b)
  case Nil
  then show ?case by simp
next
  case (Cons l ls)
  obtain r b1 where s: "ingest_line l b = (r, b1)" by (cases "ingest_line l b")
  with Cons.prems(1) have r: "r = None" and rest: "ingest_lines ls b1 = (None, b')"
    by (auto split: option.splits)
  from ingest_line_grown[of b l] s have g1: "all_grown (documents b) (documents b1)" by simp
  from ingest_lines_grown[of b1 ls] rest have g2: "all_grown (documents b1) (documents b')" by simp
  show ?case
  proof (cases "l = JObj obj")
    case True
    let ?d0 = "case map_of (documents b) (obj_uri obj) of None \<Rightarrow> empty_data | Some d \<Rightarrow> d"
    from True s ingest_document_vertex[OF assms(3,4), of b]
    have "map_of (documents b1) (obj_uri obj) = Some (?d0\<lparr>vertices := vertices ?d0 @ [obj]\<rparr>)"
      by (simp add: ingest_line_def)
    with g2 obtain d' where d': "map_of (documents b') (obj_uri obj) = Some d'"
      "grown (?d0\<lparr>vertices := vertices ?d0 @ [obj]\<rparr>) d'"
      by (auto simp: all_grown_def)
    from d'(2) have "prefix (vertices ?d0 @ [obj]) (vertices d')" "prefix (edges ?d0) (edges d')"
      by (simp_all add: grown_def)
    then have "grown ?d0 d'" "length (vertices ?d0) < length (vertices d')"
      by (auto simp: grown_def dest: append_prefixD prefix_length_le)
    with d'(1) show ?thesis by auto
  next
    case False
    with Cons.prems(2) have "JObj obj \<in> set ls" by simp
    from Cons.IH[OF rest this] obtain d' where
      d': "map_of (documents b') (obj_uri obj) = Some d'"
      "\<forall>d. map_of (documents b1) (obj_uri obj) = Some d \<longrightarrow>
           grown d d' \<and> length (vertices d) < length (vertices d')" by blast
    {
      fix d assume "map_of (documents b) (obj_uri obj) = Some d"
      with g1 obtain d1 where "map_of (documents b1) (obj_uri obj) = Some d1" "grown d d1"
        by (auto simp: all_grown_def)
      with d'(2) have "grown d d' \<and> length (vertices d) < length (vertices d')"
        using grown_trans grown_length by fastforce
    }
    with d'(1) show ?thesis by blast
  qed
qed

lemma load_document_grows:
  assumes "load ls b = Returns b'" and "JObj obj \<in> set ls"
    and "is_document_vertex obj" and "truthy_str (obj_uri obj)" and "obj_uri obj \<noteq> unsorted"
  shows "\<exists>d'. map_of (documents b') (obj_uri obj) = Some d' \<and>
           (\<forall>d. map_of (documents b) (obj_uri obj) = Some d \<longrightarrow>
                grown d d' \<and> length (vertices d) < length (vertices d'))"
proof -
  obtain r b1 where i: "ingest_lines ls b = (r, b1)" by (cases "ingest_lines ls b")
  with assms(1) have r: "r = None" and rep: "repair b1 = Returns b'"
    by (auto simp: load_def split: option.splits)
  from ingest_lines_document_grows[OF i[unfolded r] assms(2,3,4)] obtain d1 where
    d1: "map_of (documents b1) (obj_uri obj) = Some d1"
      "\<forall>d. map_of (documents b) (obj_uri obj) = Some d \<longrightarrow>
           grown d d1 \<and> length (vertices d) < length (vertices d1)" by blast
  from repair_returns[OF rep] assms(5) d1(1) obtain d' where
    d': "map_of (documents b') (obj_uri obj) = Some d'" "grown d1 d'" by blast
  {
    fix d assume "map_of (documents b) (obj_uri obj) = Some d"
    with d1(2) have "grown d d1" "length (vertices d) < length (vertices d1)" by auto
    with d'(2) have "grown d d' \<and> length (vertices d) < length (vertices d')"
      using grown_trans grown_length by fastforce
  }
  with d'(1) show ?thesis by blast
qed

text \<open>
  Claim C8, as stated (a second \<open>load\<close> of the same bytes on the same backend discards the
  previous graph and yields the same shards), fails on the sample index: after the first
  load the shard of \<open>file:///a\<close> has the vertices 1, 2, 3, 5 and the edges 4, 6, 7; after
  the second it has each of them twice.
\<close>

theorem reload_counterexample:
  "map_option shard_ids (returned (load hover_index new_backend))
     = Some [(Some ''file:///a'', [Some 1, Some 2, Some 3, Some 5], [Some 4, Some 6, Some 7])] \<and>
   map_option shard_ids (returned (load_twice hover_index new_backend))
     = Some [(Some ''file:///a'', [Some 1, Some 2, Some 3, Some 5, Some 1, Some 2, Some 3, Some 5],
               [Some 4, Some 6, Some 7, Some 4, Some 6, Some 7])]"
  by (simp add: hover_index_def sample_defs load_defs)

text \<open>
  Claim C8, amended. \<open>load\<close> never discards the graph it finds: it appends to it. When a
  second \<open>load\<close> of the same lines on the same backend returns, every shard left by the
  first load is still there and its vertex list and its edge list have the lists of the
  first load as prefixes; and for every document vertex of the file (with a non-empty uri
  other than \<open>"unsorted"\<close>) the vertex list of its shard is strictly longer than after the
  first load, so the shards of the two loads differ.
\<close>

theorem reload_appends:
  assumes "load ls b0 = Returns b1" and "load ls b1 = Returns b2"
  shows "(\<forall>k d1. map_of (documents b1) k = Some d1 \<longrightarrow>
            (\<exists>d2. map_of (documents b2) k = Some d2 \<and>
               prefix (vertices d1) (vertices d2) \<and> prefix (edges d1) (edges d2))) \<and>
         (\<forall>obj. JObj obj \<in> set ls \<longrightarrow> is_document_vertex obj \<longrightarrow>
            truthy_str (obj_uri obj) \<longrightarrow> obj_uri obj \<noteq> unsorted \<longrightarrow>
            (\<exists>d1 d2. map_of (documents b1) (obj_uri obj) = Some d1 \<and>
               map_of (documents b2) (obj_uri obj) = Some d2 \<and>
               strict_prefix (vertices d1) (vertices d2)))"
proof (intro conjI allI impI)
  fix k d1
  assume k: "map_of (documents b1) k = Some d1"
  from load_returns[OF assms(1)] k have "k \<noteq> unsorted" by auto
  with load_returns[OF assms(2)] k
  show "\<exists>d2. map_of (documents b2) k = Some d2 \<and>
               prefix (vertices d1) (vertices d2) \<and> prefix (edges d1) (edges d2)"
    by (auto simp: grown_def)
next
  fix obj
  assume o: "JObj obj \<in> set ls" "is_document_vertex obj" "truthy_str (obj_uri obj)"
    "obj_uri obj \<noteq> unsorted"
  from load_document_grows[OF assms(1) o] obtain d1 where
    d1: "map_of (documents b1) (obj_uri obj) = Some d1" by blast
  from load_document_grows[OF assms(2) o] d1 obtain d2 where
    "map_of (documents b2) (obj_uri obj) = Some d2" "grown d1 d2"
    "length (vertices d1) < length (vertices d2)" by blast
  with d1 show "\<exists>d1 d2. map_of (documents b1) (obj_uri obj) = Some d1 \<and>
               map_of (documents b2) (obj_uri obj) = Some d2 \<and>
               strict_prefix (vertices d1) (vertices d2)"
    by (auto simp: grown_def strict_prefix_def)
qed

lemma hover_index_loaded: "load hover_index new_backend = Returns (loaded hover_index)"
  by (simp add: hover_index_def sample_defs load_defs)

lemma hover_index_reloaded: "load hover_index (loaded hover_index) = Returns (reloaded hover_index)"
  by (simp add: reloaded_def hover_index_def sample_defs load_defs)

theorem reload_appends_witness:
  "load hover_index new_backend = Returns (loaded hover_index) \<and>
   load hover_index (loaded hover_index) = Returns (reloaded hover_index) \<and>
   JObj (document_vertex 1 ''file:///a'') \<in> set hover_index \<and>
   is_document_vertex (document_vertex 1 ''file:///a'') \<and>
   truthy_str (obj_uri (document_vertex 1 ''file:///a'')) \<and>
   obj_uri (document_vertex 1 ''file:///a'') \<noteq> unsorted \<and>
   (\<exists>d1 d2. map_of (documents (loaded hover_index)) (Some ''file:///a'') = Some d1 \<and>
      map_of (documents (reloaded hover_index)) (Some ''file:///a'') = Some d2 \<and>
      strict_prefix (vertices d1) (vertices d2) \<and> prefix (edges d1) (edges d2))"
proof -
  let ?o = "document_vertex 1 ''file:///a''"
  have o: "JObj ?o \<in> set hover_index" "is_document_vertex ?o" "truthy_str (obj_uri ?o)"
    "obj_uri ?o \<noteq> unsorted" and u: "obj_uri ?o = Some ''file:///a''"
    by (simp_all add: hover_index_def sample_defs is_document_vertex_def truthy_str_def)
  note t = reload_appends[OF hover_index_loaded hover_index_reloaded]
  from t o obtain d1 d2 where d: "map_of (documents (loaded hover_index)) (obj_uri ?o) = Some d1"
    "map_of (documents (reloaded hover_index)) (obj_uri ?o) = Some d2"
    "strict_prefix (vertices d1) (vertices d2)" by blast
  from t d(1) obtain d2' where "map_of (documents (reloaded hover_index)) (obj_uri ?o) = Some d2'"
    "prefix (edges d1) (edges d2')" by blast
  with d have "prefix (edges d1) (edges d2)" by simp
  with d u have "\<exists>d1 d2. map_of (documents (loaded hover_index)) (Some ''file:///a'') = Some d1 \<and>
      map_of (documents (reloaded hover_index)) (Some ''file:///a'') = Some d2 \<and>
      strict_prefix (vertices d1) (vertices d2) \<and> prefix (edges d1) (edges d2)" by auto
  with o hover_index_loaded hover_index_reloaded show ?thesis by blast
qed

subsection \<open>The cursor\<close>

lemma ingest_lines_plain:
  assumes "\<forall>r\<in>set rs. \<not> is_document_vertex r \<and> \<not> is_contains_edge r"
    and "truthy_str (currentDocumentUri b)"
    and "map_of (documents b) (currentDocumentUri b) = Some d"
  shows "ingest_lines (map JObj rs) b =
     (None, b\<lparr>documents := AList.update (currentDocumentUri b)
        (d\<lparr>vertices := vertices d @ filter (\<lambda>r. obj_type r = Some ''vertex'') rs,
           edges := edges d @ filter (\<lambda>r. obj_type r = Some ''edge'') rs\<rparr>) (documents b)\<rparr>)"
  using assms
proof (induction rs arbitrary: b d)
  case Nil
  then show ?case by (simp add: update_triv)
next
  case (Cons r rs)
  let ?c = "currentDocumentUri b"
  let ?d1 = "d\<lparr>vertices := vertices d @ (if obj_type r = Some ''vertex'' then [r] else []),
               edges := edges d @ (if obj_type r = Some ''edge'' then [r] else [])\<rparr>"
  let ?b1 = "b\<lparr>documents := AList.update ?c ?d1 (documents b)\<rparr>"
  from Cons.prems have r: "\<not> is_document_vertex r" "\<not> is_contains_edge r" by simp_all
  from ingest_plain[OF r Cons.prems(2,3)] have s: "ingest r b = (None, ?b1)" .
  have c1: "truthy_str (currentDocumentUri ?b1)" using Cons.prems(2) by simp
  have d1: "map_of (documents ?b1) (currentDocumentUri ?b1) = Some ?d1"
    by (simp add: update_conv')
  from Cons.prems(1) have rest: "\<forall>r\<in>set rs. \<not> is_document_vertex r \<and> \<not> is_contains_edge r"
    by simp
  from Cons.IH[OF rest c1 d1] s show ?case
    by (simp add: ingest_line_def)
qed

lemma ingest_contains_edge:
  assumes "is_contains_edge obj" and "truthy_str (currentDocumentUri b)"
    and "map_of (documents b) (currentDocumentUri b) = Some d"
  shows "fst (ingest obj b) = None \<and>
         currentDocumentUri (snd (ingest obj b)) = unsorted \<and>
         map_of (documents (snd (ingest obj b))) (currentDocumentUri b)
           = Some (d\<lparr>edges := edges d @ [obj]\<rparr>) \<and>
         map_of (documents (snd (ingest obj b))) unsorted \<noteq> None"
  using assms
  by (auto simp: ingest_def enter_document_def store_record_def leave_document_def
      push_edge_def is_document_vertex_def is_contains_edge_def update_conv')

lemma ingest_without_cursor:
  assumes "\<not> truthy_str (currentDocumentUri b)" and "\<not> is_document_vertex obj"
    and "\<not> is_contains_edge obj"
  shows "ingest obj b = (None, b)"
  using assms
  by (simp add: ingest_def enter_document_def store_record_def leave_document_def)

lemma ingest_document_cursor:
  "is_document_vertex obj \<Longrightarrow> truthy_str (obj_uri obj) \<Longrightarrow>
     currentDocumentUri (snd (ingest obj b)) = obj_uri obj"
  by (auto simp: ingest_def enter_document_def store_record_def leave_document_def
      push_vertex_def is_document_vertex_def is_contains_edge_def update_conv'
      split: option.splits)

text \<open>
  Claim C5, as stated (once a document vertex has set the cursor, every later record goes
  to that document's shard until the next document vertex; only records under no cursor
  go to the unassigned shard), fails on a file with a metaData vertex 1, the document 2
  with range 3 and contains edge 4, then a result set 5 and a next edge 6. No document
  vertex follows document 2, yet vertex 5 and edge 6 are in the shard \<open>"unsorted"\<close> and not
  in the document's; the metaData vertex, read under no cursor, is in no shard.
\<close>

theorem cursor_until_next_document_counterexample:
  "fst (ingest_lines trailing_index new_backend) = None \<and>
   shard_ids (snd (ingest_lines trailing_index new_backend))
     = [(Some ''file:///a'', [Some 2, Some 3], [Some 4]), (unsorted, [Some 5], [Some 6])]"
  by (simp add: trailing_index_def sample_defs load_defs)

text \<open>
  Claim C5, amended. A document vertex with a non-empty uri sets the cursor to its uri
  and is itself stored in that shard. While the cursor is set to a uri whose shard exists,
  the vertex and edge records that follow are appended to that shard, in order, up to the
  next document vertex or the next contains edge. A contains edge is itself appended to
  the shard of the cursor and then moves the cursor to the unassigned shard \<open>"unsorted"\<close>,
  creating it if need be, so that shard receives what follows a contains edge. A record
  read while no cursor is set, if it is neither a document vertex nor a contains edge, is
  stored nowhere.
\<close>

theorem cursor_scopes_records:
  "(is_document_vertex obj \<longrightarrow> truthy_str (obj_uri obj) \<longrightarrow>
      fst (ingest obj b) = None \<and> currentDocumentUri (snd (ingest obj b)) = obj_uri obj \<and>
      (\<exists>d'. map_of (documents (snd (ingest obj b))) (obj_uri obj) = Some d' \<and>
             obj \<in> set (vertices d')))
   \<and> ((\<forall>r\<in>set rs. \<not> is_document_vertex r \<and> \<not> is_contains_edge r) \<longrightarrow>
        truthy_str (currentDocumentUri b) \<longrightarrow>
        map_of (documents b) (currentDocumentUri b) = Some d \<longrightarrow>
        ingest_lines (map JObj rs) b =
          (None, b\<lparr>documents := AList.update (currentDocumentUri b)
             (d\<lparr>vertices := vertices d @ filter (\<lambda>r. obj_type r = Some ''vertex'') rs,
                edges := edges d @ filter (\<lambda>r. obj_type r = Some ''edge'') rs\<rparr>) (documents b)\<rparr>))
   \<and> (is_contains_edge obj \<longrightarrow> truthy_str (currentDocumentUri b) \<longrightarrow>
        map_of (documents b) (currentDocumentUri b) = Some d \<longrightarrow>
        fst (ingest obj b) = None \<and> currentDocumentUri (snd (ingest obj b)) = unsorted \<and>
        map_of (documents (snd (ingest obj b))) (currentDocumentUri b)
          = Some (d\<lparr>edges := edges d @ [obj]\<rparr>) \<and>
        map_of (documents (snd (ingest obj b))) unsorted \<noteq> None)
   \<and> (\<not> truthy_str (currentDocumentUri b) \<longrightarrow> \<not> is_document_vertex obj \<longrightarrow>
        \<not> is_contains_edge obj \<longrightarrow> ingest obj b = (None, b))"
  using ingest_document_vertex[of obj b] ingest_document_cursor[of obj b]
    ingest_lines_plain[of rs b d] ingest_contains_edge[of obj b d] ingest_without_cursor[of b obj]
  by (intro conjI impI) auto


theorem cursor_scopes_records_witness:
  "\<not> truthy_str (currentDocumentUri new_backend) \<and>
   \<not> is_document_vertex (vertex 1 ''metaData'') \<and> \<not> is_contains_edge (vertex 1 ''metaData'') \<and>
   ingest (vertex 1 ''metaData'') new_backend = (None, new_backend) \<and>
   is_document_vertex (document_vertex 2 ''file:///a'') \<and>
   truthy_str (obj_uri (document_vertex 2 ''file:///a'')) \<and>
   currentDocumentUri (snd (ingest (document_vertex 2 ''file:///a'') new_backend)) = Some ''file:///a'' \<and>
   map_of (documents (snd (ingest (document_vertex 2 ''file:///a'') new_backend))) (Some ''file:///a'')
     = Some \<lparr>vertices = [document_vertex 2 ''file:///a''], edges = []\<rparr> \<and>
   \<not> is_document_vertex (range_vertex 3 2 2 2 6) \<and> \<not> is_contains_edge (range_vertex 3 2 2 2 6) \<and>
   \<not> is_document_vertex (edge1 6 ''next'' 3 5) \<and> \<not> is_contains_edge (edge1 6 ''next'' 3 5) \<and>
   shard_ids (snd (ingest_lines (map JObj [range_vertex 3 2 2 2 6, edge1 6 ''next'' 3 5])
       (snd (ingest (document_vertex 2 ''file:///a'') new_backend))))
     = [(Some ''file:///a'', [Some 2, Some 3], [Some 6])] \<and>
   is_contains_edge (edgeN 4 ''contains'' 2 [3]) \<and>
   currentDocumentUri (snd (ingest (edgeN 4 ''contains'' 2 [3])
       (snd (ingest (document_vertex 2 ''file:///a'') new_backend)))) = unsorted \<and>
   shard_ids (snd (ingest (edgeN 4 ''contains'' 2 [3])
       (snd (ingest (document_vertex 2 ''file:///a'') new_backend))))
     = [(Some ''file:///a'', [Some 2], [Some 4]), (unsorted, [], [])]"
proof -
  let ?m = "vertex 1 ''metaData''"
  let ?doc = "document_vertex 2 ''file:///a''"
  let ?r = "range_vertex 3 2 2 2 6"
  let ?n = "edge1 6 ''next'' 3 5"
  let ?c = "edgeN 4 ''contains'' 2 [3]"
  let ?B = "snd (ingest ?doc new_backend)"
  let ?D = "\<lparr>vertices = [?doc], edges = []\<rparr>"
  have m: "\<not> truthy_str (currentDocumentUri new_backend)" "\<not> is_document_vertex ?m"
    "\<not> is_contains_edge ?m"
    by (simp_all add: sample_defs new_backend_def truthy_str_def is_document_vertex_def
        is_contains_edge_def)
  have doc: "is_document_vertex ?doc" "truthy_str (obj_uri ?doc)"
    and u: "obj_uri ?doc = Some ''file:///a''"
    by (simp_all add: sample_defs truthy_str_def is_document_vertex_def)
  have rs: "\<not> is_document_vertex ?r" "\<not> is_contains_edge ?r"
    "\<not> is_document_vertex ?n" "\<not> is_contains_edge ?n"
    and c: "is_contains_edge ?c"
    by (simp_all add: sample_defs is_document_vertex_def is_contains_edge_def)
  from cursor_scopes_records[of ?m new_backend "[]" ?D] m
  have 1: "ingest ?m new_backend = (None, new_backend)" by blast
  from cursor_scopes_records[of ?doc new_backend "[]" ?D] doc u
  have 2: "currentDocumentUri ?B = Some ''file:///a''" by simp
  have B: "map_of (documents ?B) (Some ''file:///a'') = Some ?D"
    by (simp add: sample_defs load_defs)
  from 2 have t: "truthy_str (currentDocumentUri ?B)" by (simp add: truthy_str_def)
  from rs have rs': "\<forall>x\<in>set [?r, ?n]. \<not> is_document_vertex x \<and> \<not> is_contains_edge x" by simp
  from cursor_scopes_records[of ?c ?B "[?r, ?n]" ?D] rs' t B 2
  have "ingest_lines (map JObj [?r, ?n]) ?B =
     (None, ?B\<lparr>documents := AList.update (currentDocumentUri ?B)
        (?D\<lparr>vertices := vertices ?D @ filter (\<lambda>r. obj_type r = Some ''vertex'') [?r, ?n],
            edges := edges ?D @ filter (\<lambda>r. obj_type r = Some ''edge'') [?r, ?n]\<rparr>) (documents ?B)\<rparr>)"
    by simp
  then have 3: "shard_ids (snd (ingest_lines (map JObj [?r, ?n]) ?B))
     = [(Some ''file:///a'', [Some 2, Some 3], [Some 6])]"
    by (simp add: sample_defs load_defs)
  from cursor_scopes_records[of ?c ?B "[]" ?D] c t B 2
  have 4: "currentDocumentUri (snd (ingest ?c ?B)) = unsorted" by simp
  have 5: "shard_ids (snd (ingest ?c ?B))
     = [(Some ''file:///a'', [Some 2], [Some 4]), (unsorted, [], [])]"
    by (simp add: sample_defs load_defs)
  from m 1 doc 2 B rs 3 c 4 5 show ?thesis by blast
qed

subsection \<open>The repair pass\<close>

lemma ingest_lines_None_well_linked:
  "ingest_lines ls b = (None, b') \<Longrightarrow> well_linked b \<Longrightarrow> well_linked b'"
proof (induction ls arbitrary: b)
  case Nil
  then show ?case by simp
next
  case (Cons l ls)
  show ?case
  proof (cases l)
    case Invalid
    with Cons.prems show ?thesis by (simp add: ingest_line_def)
  next
    case JNull
    with Cons.prems show ?thesis by (simp add: ingest_line_def)
  next
    case (JObj obj)
    from ingest_well_linked[OF Cons.prems(2), of obj] obtain b1 where
      b1: "ingest obj b = (None, b1)" "well_linked b1" by blast
    with JObj Cons.prems(1) have "ingest_lines ls b1 = (None, b')" by (simp add: ingest_line_def)
    from Cons.IH[OF this b1(2)] show ?thesis .
  qed
qed

lemma repair_edge_skip: "\<not> wants_repair b edge \<Longrightarrow> repair_edge edge b = (None, b)"
  by (simp add: repair_edge_def)

lemma repair_edge_migrates:
  assumes w: "wants_repair b edge"
    and t: "vertexIdToDocument b (shard edge) \<noteq> unsorted"
    and d: "map_of (documents b) (vertexIdToDocument b (shard edge)) = Some d"
    and u: "map_of (documents b) unsorted = Some u"
  shows "repair_edge edge b =
     (None, b\<lparr>documents := AList.update (vertexIdToDocument b (shard edge))
        (d\<lparr>edges := edges d @ edge # the_one (find (id_is_minus 1 edge) (edges u)),
           vertices := vertices d @ the_one (find (id_is_minus 2 edge) (vertices u))\<rparr>)
        (documents b)\<rparr>)"
proof -
  let ?t = "vertexIdToDocument b (shard edge)"
  let ?d1 = "d\<lparr>edges := edges d @ [edge]\<rparr>"
  let ?docs1 = "AList.update ?t ?d1 (documents b)"
  let ?b1 = "b\<lparr>documents := ?docs1\<rparr>"
  have p1: "push_edge ?t edge (documents b) = Some ?docs1"
    using d by (simp add: push_edge_def)
  have ue: "unsorted_edges ?b1 = edges u"
    using t u by (simp add: unsorted_edges_def update_conv')
  let ?d2 = "d\<lparr>edges := edges d @ edge # the_one (find (id_is_minus 1 edge) (edges u))\<rparr>"
  let ?b2 = "b\<lparr>documents := AList.update ?t ?d2 (documents b)\<rparr>"
  have s2: "(case find (id_is_minus 1 edge) (unsorted_edges ?b1) of None \<Rightarrow> ?b1
       | Some edgeMinus1 \<Rightarrow> (case push_edge ?t edgeMinus1 (documents ?b1) of
            None \<Rightarrow> ?b1 | Some docs2 \<Rightarrow> ?b1\<lparr>documents := docs2\<rparr>)) = ?b2"
    unfolding ue
    by (cases "find (id_is_minus 1 edge) (edges u)")
       (simp_all add: the_one_def push_edge_def update_conv')
  have uv: "unsorted_vertices ?b2 = vertices u"
    using t u by (simp add: unsorted_vertices_def update_conv')
  let ?d3 = "d\<lparr>edges := edges d @ edge # the_one (find (id_is_minus 1 edge) (edges u)),
           vertices := vertices d @ the_one (find (id_is_minus 2 edge) (vertices u))\<rparr>"
  let ?b3 = "b\<lparr>documents := AList.update ?t ?d3 (documents b)\<rparr>"
  have s3: "(case find (id_is_minus 2 edge) (unsorted_vertices ?b2) of None \<Rightarrow> ?b2
       | Some vertexMinus2 \<Rightarrow> (case push_vertex ?t vertexMinus2 (documents ?b2) of
            None \<Rightarrow> ?b2 | Some docs3 \<Rightarrow> ?b2\<lparr>documents := docs3\<rparr>)) = ?b3"
    unfolding uv
    by (cases "find (id_is_minus 2 edge) (vertices u)")
       (simp_all add: the_one_def push_vertex_def update_conv')
  show ?thesis
    unfolding repair_edge_def Let_def
    by (simp only: w p1 if_True option.case s2 s3)
qed


lemma migrates_to_iff:
  "migrates_to b k edge = (wants_repair b edge \<and> vertexIdToDocument b (shard edge) = k)"
  by (auto simp: migrates_to_def wants_repair_def truthy_num_def truthy_str_def
           split: option.splits)

lemma the_one_find: "the_one (find P xs) = take 1 (filter P xs)"
  by (induction xs) (simp_all add: the_one_def)

lemma companion_find: "companion k edge rs = the_one (find (id_is_minus k edge) rs)"
  by (cases "obj_id edge")
     (simp_all add: companion_def first_with_id_def the_one_find id_is_minus_def[abs_def])

lemma migrates_to_cong:
  "vertexIdToDocument b1 = vertexIdToDocument b \<Longrightarrow> migrates_to b1 = migrates_to b"
  by (auto simp: migrates_to_iff wants_repair_def fun_eq_iff)

lemma spec_for_cong:
  assumes "vertexIdToDocument b1 = vertexIdToDocument b"
  shows "spec_edges_for b1 = spec_edges_for b" "spec_vertices_for b1 = spec_vertices_for b"
  by (simp_all add: spec_edges_for_def spec_vertices_for_def migrates_to_cong[OF assms] fun_eq_iff)

lemma spec_for_Nil: "spec_edges_for b u k [] = []" "spec_vertices_for b u k [] = []"
  by (simp_all add: spec_edges_for_def spec_vertices_for_def)

lemma spec_for_Cons:
  "spec_edges_for b u k (e # es) =
     (if migrates_to b k e then e # the_one (find (id_is_minus 1 e) (edges u)) else [])
       @ spec_edges_for b u k es"
  "spec_vertices_for b u k (e # es) =
     (if migrates_to b k e then the_one (find (id_is_minus 2 e) (vertices u)) else [])
       @ spec_vertices_for b u k es"
  by (simp_all add: spec_edges_for_def spec_vertices_for_def companion_find)

lemma repair_edges_migrate:
  assumes "map_of (documents b) unsorted = Some u"
    and "\<forall>e\<in>set es. wants_repair b e \<longrightarrow>
           vertexIdToDocument b (shard e) \<noteq> unsorted \<and>
           map_of (documents b) (vertexIdToDocument b (shard e)) \<noteq> None"
  shows "\<exists>b'. repair_edges es b = (None, b') \<and>
           vertexIdToDocument b' = vertexIdToDocument b \<and>
           currentDocumentUri b' = currentDocumentUri b \<and>
           map fst (documents b') = map fst (documents b) \<and>
           map_of (documents b') unsorted = Some u \<and>
           (\<forall>k. k \<noteq> unsorted \<longrightarrow>
              map_of (documents b') k =
                map_option (\<lambda>d. d\<lparr>edges := edges d @ spec_edges_for b u k es,
                                   vertices := vertices d @ spec_vertices_for b u k es\<rparr>)
                  (map_of (documents b) k))"
  using assms
proof (induction es arbitrary: b)
  case Nil
  have "\<And>k. map_option (\<lambda>d. d\<lparr>edges := edges d @ [], vertices := vertices d @ []\<rparr>)
            (map_of (documents b) k) = map_of (documents b) k"
    by (simp add: option.map_ident)
  with Nil show ?case by (simp add: spec_for_Nil)
next
  case (Cons e es)
  show ?case
  proof (cases "wants_repair b e")
    case False
    then have s: "repair_edge e b = (None, b)" by (rule repair_edge_skip)
    from False have m: "\<And>k. \<not> migrates_to b k e" by (simp add: migrates_to_iff)
    from Cons.prems(2) have "\<forall>e\<in>set es. wants_repair b e \<longrightarrow>
           vertexIdToDocument b (shard e) \<noteq> unsorted \<and>
           map_of (documents b) (vertexIdToDocument b (shard e)) \<noteq> None" by simp
    from Cons.IH[OF Cons.prems(1) this] s m show ?thesis
      by (simp add: spec_for_Cons)
  next
    case True
    let ?t = "vertexIdToDocument b (shard e)"
    from True Cons.prems(2) obtain d where
      t: "?t \<noteq> unsorted" and d: "map_of (documents b) ?t = Some d" by auto
    let ?D = "d\<lparr>edges := edges d @ e # the_one (find (id_is_minus 1 e) (edges u)),
                vertices := vertices d @ the_one (find (id_is_minus 2 e) (vertices u))\<rparr>"
    let ?b1 = "b\<lparr>documents := AList.update ?t ?D (documents b)\<rparr>"
    from repair_edge_migrates[OF True t d Cons.prems(1)]
    have s: "repair_edge e b = (None, ?b1)" .
    have v1: "vertexIdToDocument ?b1 = vertexIdToDocument b" by simp
    have u1: "map_of (documents ?b1) unsorted = Some u"
      using t Cons.prems(1) by (simp add: update_conv')
    have w1: "\<And>x. wants_repair ?b1 x = wants_repair b x" by (simp add: wants_repair_def)
    have h1: "\<forall>e\<in>set es. wants_repair ?b1 e \<longrightarrow>
           vertexIdToDocument ?b1 (shard e) \<noteq> unsorted \<and>
           map_of (documents ?b1) (vertexIdToDocument ?b1 (shard e)) \<noteq> None"
      using Cons.prems(2) by (auto simp: w1 update_conv')
    from Cons.IH[OF u1 h1] obtain b' where
      r: "repair_edges es ?b1 = (None, b')" and
      v: "vertexIdToDocument b' = vertexIdToDocument b" and
      c: "currentDocumentUri b' = currentDocumentUri b" and
      f: "map fst (documents b') = map fst (documents ?b1)" and
      un: "map_of (documents b') unsorted = Some u" and
      m: "\<forall>k. k \<noteq> unsorted \<longrightarrow> map_of (documents b') k =
            map_option (\<lambda>d. d\<lparr>edges := edges d @ spec_edges_for ?b1 u k es,
                               vertices := vertices d @ spec_vertices_for ?b1 u k es\<rparr>)
              (map_of (documents ?b1) k)"
      by auto
    from d have "?t \<in> set (map fst (documents b))"
      by (auto dest!: map_of_SomeD intro: rev_image_eqI)
    with f have f': "map fst (documents b') = map fst (documents b)"
      by (simp add: update_keys)
    have mt: "migrates_to b ?t e" using True by (simp add: migrates_to_iff)
    have mk: "\<And>k. k \<noteq> ?t \<Longrightarrow> \<not> migrates_to b k e" by (auto simp: migrates_to_iff)
    {
      fix k :: "string option"
      assume k: "k \<noteq> unsorted"
      have "map_of (documents b') k =
            map_option (\<lambda>d. d\<lparr>edges := edges d @ spec_edges_for b u k (e # es),
                               vertices := vertices d @ spec_vertices_for b u k (e # es)\<rparr>)
              (map_of (documents b) k)"
      proof (cases "k = ?t")
        case True
        with m k d mt show ?thesis
          by (simp add: spec_for_cong[OF v1] update_conv' spec_for_Cons)
      next
        case False
        with m k mk[OF False] show ?thesis
          by (simp add: spec_for_cong[OF v1] update_conv' spec_for_Cons)
      qed
    }
    with s r v c f' un show ?thesis by simp
  qed
qed

text \<open>
  Claim C4, as stated: every item edge of the unassigned shard that carries a \<open>shard\<close>
  field which resolves through the id-to-uri map is copied into the target document's
  shard, and the unassigned shard is then discarded. It fails on the code twice.

  The guard of the repair loop is \<open>edge.label === "item" && edge.shard\<close>, a truthiness
  test: in \<open>zero_shard_index\<close> the item edge 5 lies in the unassigned shard after
  ingestion and carries \<open>shard: 0\<close>, which the id-to-uri map sends to \<open>file:///a\<close>, yet
  after \<open>load\<close> the shard of \<open>file:///a\<close> holds the vertices 0, 1 and the edge 2 only:
  neither the item edge nor its companions 4 and 3 were copied.

  In \<open>unsorted_uri_index\<close> the item edge resolves to a document whose uri is the string
  \<open>unsorted\<close>; the loop then pushes onto the array it iterates, and \<open>load\<close> neither
  returns nor discards the unassigned shard.
\<close>

theorem zero_shard_counterexample:
  "shard_ids (snd (ingest_lines zero_shard_index new_backend))
     = [(Some ''file:///a'', [Some 0, Some 1], [Some 2]),
        (unsorted, [Some 3], [Some 4, Some 5])] \<and>
   obj_id zero_shard_item = Some 5 \<and> obj_label zero_shard_item = Some ''item'' \<and>
   shard zero_shard_item = Some 0 \<and>
   vertexIdToDocument (snd (ingest_lines zero_shard_index new_backend)) (Some 0)
     = Some ''file:///a'' \<and>
   map_option shard_ids (returned (load zero_shard_index new_backend))
     = Some [(Some ''file:///a'', [Some 0, Some 1], [Some 2])] \<and>
   load unsorted_uri_index new_backend = Diverges"
  by (simp add: zero_shard_index_def zero_shard_item_def unsorted_uri_index_def
        sample_defs load_defs Let_def)

text \<open>
  Claim C4, amended. Let the stream be consumed without a throw, from a backend in which
  every uri that can be pushed to has a shard (a fresh backend is one), and let the
  unassigned shard exist and hold no item edge that migrates to \<open>"unsorted"\<close> itself.
  Then \<open>load\<close> returns, and the backend it leaves is the ingested one except for the
  shards: the unassigned shard is gone, the other shards keep their keys and order, and
  each shard \<open>k\<close> is the ingested shard with exactly these records appended: for every item
  edge of the unassigned shard that carries a \<open>shard\<close> field other than 0 which the
  id-to-uri map sends to the non-empty uri \<open>k\<close>, in order, the edge itself, then the
  first edge of the unassigned shard whose id is one less, if there is one, to the edges;
  and the first vertex of the unassigned shard whose id is two less, if there is one, to
  the vertices. Nothing else moves.
\<close>

theorem repair_migrates_exactly:
  assumes "well_linked b0" and "ingest_lines ls b0 = (None, b)"
    and "map_of (documents b) unsorted = Some u"
    and "\<forall>e\<in>set (edges u). \<not> migrates_to b unsorted e"
  shows "\<exists>b'. load ls b0 = Returns b' \<and>
           vertexIdToDocument b' = vertexIdToDocument b \<and>
           currentDocumentUri b' = currentDocumentUri b \<and>
           map fst (documents b') = removeAll unsorted (map fst (documents b)) \<and>
           map_of (documents b') unsorted = None \<and>
           (\<forall>k. k \<noteq> unsorted \<longrightarrow>
              map_of (documents b') k = map_option (spec_repaired b u k) (map_of (documents b) k))"
proof -
  from ingest_lines_None_well_linked[OF assms(2,1)] have wl: "well_linked b" .
  have nf: "\<forall>e\<in>set (edges u). \<not> feeds_unsorted b e"
    using assms(4) by (simp add: feeds_unsorted_def migrates_to_iff)
  have h: "\<forall>e\<in>set (edges u). wants_repair b e \<longrightarrow>
           vertexIdToDocument b (shard e) \<noteq> unsorted \<and>
           map_of (documents b) (vertexIdToDocument b (shard e)) \<noteq> None"
  proof (intro ballI impI)
    fix e assume e: "e \<in> set (edges u)" and w: "wants_repair b e"
    from e w nf have "vertexIdToDocument b (shard e) \<noteq> unsorted"
      by (auto simp: feeds_unsorted_def)
    moreover from w wl have "map_of (documents b) (vertexIdToDocument b (shard e)) \<noteq> None"
      by (simp add: wants_repair_def well_linked_def)
    ultimately show "vertexIdToDocument b (shard e) \<noteq> unsorted \<and>
           map_of (documents b) (vertexIdToDocument b (shard e)) \<noteq> None" by simp
  qed
  from repair_edges_migrate[OF assms(3) h] obtain b2 where
    r: "repair_edges (edges u) b = (None, b2)" and
    v: "vertexIdToDocument b2 = vertexIdToDocument b" and
    c: "currentDocumentUri b2 = currentDocumentUri b" and
    f: "map fst (documents b2) = map fst (documents b)" and
    m: "\<forall>k. k \<noteq> unsorted \<longrightarrow> map_of (documents b2) k =
            map_option (\<lambda>d. d\<lparr>edges := edges d @ spec_edges_for b u k (edges u),
                               vertices := vertices d @ spec_vertices_for b u k (edges u)\<rparr>)
              (map_of (documents b) k)"
    by auto
  let ?b' = "b2\<lparr>documents := AList.delete unsorted (documents b2)\<rparr>"
  from nf have "\<not> list_ex (feeds_unsorted b) (edges u)" by (simp add: list_ex_iff)
  with assms(2,3) r have "load ls b0 = Returns ?b'"
    by (simp add: load_def repair_def)
  moreover have "map fst (documents ?b') = removeAll unsorted (map fst (documents b))"
    using f by (simp add: delete_keys)
  moreover have "map_of (documents ?b') unsorted = None" by (simp add: delete_conv')
  moreover have "\<forall>k. k \<noteq> unsorted \<longrightarrow>
      map_of (documents ?b') k = map_option (spec_repaired b u k) (map_of (documents b) k)"
    using m by (auto simp: delete_conv' spec_repaired_def[abs_def])
  ultimately show ?thesis using v c by auto
qed

lemma repair_index_ingested:
  "fst (ingest_lines repair_index new_backend) = None \<and>
   map_of (documents (snd (ingest_lines repair_index new_backend))) unsorted =
     Some \<lparr>vertices = [(vertex 4 ''hoverResult'')\<lparr> result_contents := Some [''x''] \<rparr>,
                       vertex 6 ''resultSet'', vertex 11 ''referenceResult''],
           edges = [edge1 5 ''textDocument/hover'' 2 4, edge1 7 ''next'' 2 6,
                    edge1 12 ''textDocument/references'' 6 11, repair_item, stray_item]\<rparr> \<and>
   map_of (documents (snd (ingest_lines repair_index new_backend))) (Some ''file:///a'') =
     Some \<lparr>vertices = [document_vertex 1 ''file:///a'', range_vertex 2 2 2 2 6],
           edges = [edgeN 3 ''contains'' 1 [2]]\<rparr> \<and>
   vertexIdToDocument (snd (ingest_lines repair_index new_backend)) (Some 1) = Some ''file:///a'' \<and>
   vertexIdToDocument (snd (ingest_lines repair_index new_backend)) (Some 9) = None \<and>
   map fst (documents (snd (ingest_lines repair_index new_backend))) = [Some ''file:///a'', unsorted]"
  by (simp add: repair_index_def repair_item_def stray_item_def sample_defs load_defs)

theorem repair_migrates_exactly_witness:
  "fst (ingest_lines repair_index new_backend) = None \<and>
   map_of (documents (snd (ingest_lines repair_index new_backend))) unsorted =
     Some \<lparr>vertices = [(vertex 4 ''hoverResult'')\<lparr> result_contents := Some [''x''] \<rparr>,
                       vertex 6 ''resultSet'', vertex 11 ''referenceResult''],
           edges = [edge1 5 ''textDocument/hover'' 2 4, edge1 7 ''next'' 2 6,
                    edge1 12 ''textDocument/references'' 6 11, repair_item, stray_item]\<rparr> \<and>
   \<not> list_ex (migrates_to (snd (ingest_lines repair_index new_backend)) unsorted)
        [edge1 5 ''textDocument/hover'' 2 4, edge1 7 ''next'' 2 6,
         edge1 12 ''textDocument/references'' 6 11, repair_item, stray_item] \<and>
   (\<exists>b'. load repair_index new_backend = Returns b' \<and>
      map fst (documents b') = [Some ''file:///a''] \<and>
      map_of (documents b') unsorted = None \<and>
      map_of (documents b') (Some ''file:///a'') =
        Some \<lparr>vertices = [document_vertex 1 ''file:///a'', range_vertex 2 2 2 2 6,
                          vertex 6 ''resultSet''],
              edges = [edgeN 3 ''contains'' 1 [2], repair_item, edge1 7 ''next'' 2 6]\<rparr>)"
proof -
  let ?B = "snd (ingest_lines repair_index new_backend)"
  let ?es = "[edge1 5 ''textDocument/hover'' 2 4, edge1 7 ''next'' 2 6,
              edge1 12 ''textDocument/references'' 6 11, repair_item, stray_item]"
  let ?vs = "[(vertex 4 ''hoverResult'')\<lparr> result_contents := Some [''x''] \<rparr>,
              vertex 6 ''resultSet'', vertex 11 ''referenceResult'']"
  let ?U = "\<lparr>vertices = ?vs, edges = ?es\<rparr>"
  let ?A = "\<lparr>vertices = [document_vertex 1 ''file:///a'', range_vertex 2 2 2 2 6],
            edges = [edgeN 3 ''contains'' 1 [2]]\<rparr>"
  let ?A' = "\<lparr>vertices = [document_vertex 1 ''file:///a'', range_vertex 2 2 2 2 6,
                          vertex 6 ''resultSet''],
             edges = [edgeN 3 ''contains'' 1 [2], repair_item, edge1 7 ''next'' 2 6]\<rparr>"
  note g = repair_index_ingested
  from g have i: "ingest_lines repair_index new_backend = (None, ?B)"
    by (simp add: prod_eq_iff)
  from g have u: "map_of (documents ?B) unsorted = Some ?U"
    and a: "map_of (documents ?B) (Some ''file:///a'') = Some ?A"
    and v: "vertexIdToDocument ?B (Some 1) = Some ''file:///a''"
    and v9: "vertexIdToDocument ?B (Some 9) = None"
    and keys: "map fst (documents ?B) = [Some ''file:///a'', unsorted]" by blast+
  have mu: "\<And>k. \<not> migrates_to ?B k (edge1 5 ''textDocument/hover'' 2 4)"
    "\<And>k. \<not> migrates_to ?B k (edge1 7 ''next'' 2 6)"
    "\<And>k. \<not> migrates_to ?B k (edge1 12 ''textDocument/references'' 6 11)"
    "\<And>k. \<not> migrates_to ?B k stray_item"
    "\<And>k. migrates_to ?B k repair_item = (k = Some ''file:///a'')"
    using v v9 by (simp_all add: migrates_to_def repair_item_def stray_item_def sample_defs)
  have nf': "\<not> list_ex (migrates_to ?B unsorted) ?es"
    by (simp add: mu)
  then have nf: "\<forall>e\<in>set (edges ?U). \<not> migrates_to ?B unsorted e"
    by (simp add: list_ex_iff)
  have c1: "companion 1 repair_item ?es = [edge1 7 ''next'' 2 6]"
    and c2: "companion 2 repair_item ?vs = [vertex 6 ''resultSet'']"
    by (simp_all add: companion_def first_with_id_def repair_item_def stray_item_def sample_defs)
  have sp: "spec_repaired ?B ?U (Some ''file:///a'') ?A = ?A'"
    by (simp add: spec_repaired_def spec_edges_for_def spec_vertices_for_def mu c1 c2)
  from repair_migrates_exactly[OF well_linked_new_backend i u nf] obtain b' where
    b': "load repair_index new_backend = Returns b'"
      "map fst (documents b') = removeAll unsorted (map fst (documents ?B))"
      "map_of (documents b') unsorted = None"
      "\<forall>k. k \<noteq> unsorted \<longrightarrow>
         map_of (documents b') k = map_option (spec_repaired ?B ?U k) (map_of (documents ?B) k)"
    by blast
  from b'(2) keys have k: "map fst (documents b') = [Some ''file:///a'']" by simp
  from b'(4) a sp have "map_of (documents b') (Some ''file:///a'') = Some ?A'"
    by simp
  with b'(1,3) k have e: "\<exists>b'. load repair_index new_backend = Returns b' \<and>
      map fst (documents b') = [Some ''file:///a''] \<and>
      map_of (documents b') unsorted = None \<and>
      map_of (documents b') (Some ''file:///a'') = Some ?A'"
    by (intro exI[of _ b']) (rule conjI | assumption)+
  from g have g1: "fst (ingest_lines repair_index new_backend) = None" by (rule conjunct1)
  show ?thesis
    by (rule conjI[OF g1 conjI[OF u conjI[OF nf' e]]])
qed

subsection \<open>Records with missing fields\<close>










end
